theory Spec2Isabelle
  imports Complex_Main
begin

section \<open>Python values used by \<^verbatim>\<open>headfixgui.py\<close>\<close>

text \<open>
  The program is a Tkinter front end that talks to an Arduino over a serial line.
  It uses Python's unbounded integers (\<open>int\<close> here), Python floats and text.
  Text is a \<open>string\<close>; a character is a code point below 256, which covers the
  ASCII protocol of the device.  The built-ins \<^verbatim>\<open>float()\<close>, \<^verbatim>\<open>int()\<close>,
  \<^verbatim>\<open>str()\<close>, \<^verbatim>\<open>str.strip\<close>, \<^verbatim>\<open>str.split\<close>, \<^verbatim>\<open>in\<close> and
  \<^verbatim>\<open>startswith\<close> are not code of the repository; they are modelled in this
  section after the language reference, and every exception they can raise is a value.
\<close>

datatype pyerror = ValueError | OverflowError | IndexError

subsection \<open>Floats: IEEE 754 binary64, round to nearest, ties to even\<close>

text \<open>
  A finite float is the rational number it denotes; \<open>Finite 0\<close> is \<open>+0.0\<close> and
  \<open>NegZero\<close> is \<open>-0.0\<close>.
\<close>

datatype pyfloat = Finite rat | NegZero | PosInf | NegInf | NaN

definition pow2 :: "int \<Rightarrow> rat" where
  "pow2 e = (if 0 \<le> e then 2 ^ nat e else 1 / 2 ^ nat (- e))"

function bitlen :: "int \<Rightarrow> int" where
  "bitlen n = (if n \<le> 0 then 0 else 1 + bitlen (n div 2))"
  by pat_completeness auto
termination
  by (relation "measure nat") auto

declare bitlen.simps [simp del]

text \<open>
  \<open>bitlen n\<close> is the number of binary digits of \<open>n > 0\<close>, and \<open>ilog2 q\<close> is the
  integer \<open>k\<close> with \<open>2^k \<le> q < 2^(k+1)\<close>, for \<open>q > 0\<close>.
\<close>

definition ilog2 :: "rat \<Rightarrow> int" where
  "ilog2 q = (if 1 \<le> q then bitlen \<lfloor>q\<rfloor> - 1 else - bitlen (\<lceil>1 / q\<rceil> - 1))"

definition round_half_even :: "rat \<Rightarrow> int" where
  "round_half_even x =
     (let f = \<lfloor>x\<rfloor>; r = x - of_int f
      in if r < 1 / 2 then f
         else if 1 / 2 < r then f + 1
         else if even f then f else f + 1)"

text \<open>
  The exponent of the unit in the last place of the binade of \<open>a > 0\<close>: 53 significant
  bits, and no exponent below that of the subnormal numbers.
\<close>

definition ulp_exp :: "rat \<Rightarrow> int" where
  "ulp_exp a = max (ilog2 a - 52) (- 1074)"

text \<open>
  \<open>round_to_ulp a\<close> is the multiple of the unit in the last place that is nearest to
  \<open>a > 0\<close>, ties going to the even multiple.
\<close>

definition round_to_ulp :: "rat \<Rightarrow> rat" where
  "round_to_ulp a =
     (let e = ulp_exp a in of_int (round_half_even (a / pow2 e)) * pow2 e)"

text \<open>
  Rounding of a real (here rational) result to a float, with underflow to a signed zero
  and overflow to infinity when the rounded magnitude reaches \<open>2^1024\<close>.
\<close>

definition fl :: "rat \<Rightarrow> pyfloat" where
  "fl q =
     (if q = 0 then Finite 0
      else let v = round_to_ulp \<bar>q\<bar>
           in if v = 0 then (if q < 0 then NegZero else Finite 0)
              else if 1024 \<le> ilog2 v then (if q < 0 then NegInf else PosInf)
              else Finite (if q < 0 then - v else v))"

text \<open>The sign bit of a float that is not a NaN.\<close>

fun fneg_sign :: "pyfloat \<Rightarrow> bool" where
  "fneg_sign (Finite q) = (q < 0)"
| "fneg_sign NegZero = True"
| "fneg_sign NegInf = True"
| "fneg_sign _ = False"

fun is_fzero :: "pyfloat \<Rightarrow> bool" where
  "is_fzero (Finite q) = (q = 0)"
| "is_fzero NegZero = True"
| "is_fzero _ = False"

fun is_finite :: "pyfloat \<Rightarrow> bool" where
  "is_finite (Finite q) = True"
| "is_finite NegZero = True"
| "is_finite _ = False"

fun fval :: "pyfloat \<Rightarrow> rat" where
  "fval (Finite q) = q"
| "fval _ = 0"


text \<open>\<^verbatim>\<open>a + b\<close> on floats.\<close>

fun py_fadd :: "pyfloat \<Rightarrow> pyfloat \<Rightarrow> pyfloat" where
  "py_fadd NaN _ = NaN"
| "py_fadd _ NaN = NaN"
| "py_fadd PosInf NegInf = NaN"
| "py_fadd NegInf PosInf = NaN"
| "py_fadd PosInf _ = PosInf"
| "py_fadd _ PosInf = PosInf"
| "py_fadd NegInf _ = NegInf"
| "py_fadd _ NegInf = NegInf"
| "py_fadd NegZero b = b"
| "py_fadd a NegZero = a"
| "py_fadd (Finite a) (Finite b) = fl (a + b)"


text \<open>\<^verbatim>\<open>a * b\<close> on floats.\<close>

definition py_fmul :: "pyfloat \<Rightarrow> pyfloat \<Rightarrow> pyfloat" where
  "py_fmul a b =
     (if a = NaN \<or> b = NaN then NaN
      else if \<not> is_finite a \<or> \<not> is_finite b then
        (if is_fzero a \<or> is_fzero b then NaN
         else if fneg_sign a \<noteq> fneg_sign b then NegInf else PosInf)
      else if is_fzero a \<or> is_fzero b then
        (if fneg_sign a \<noteq> fneg_sign b then NegZero else Finite 0)
      else fl (fval a * fval b))"

text \<open>
  \<^verbatim>\<open>int(x)\<close> on a float: truncation toward zero; a NaN raises \<^verbatim>\<open>ValueError\<close>
  and an infinity raises \<^verbatim>\<open>OverflowError\<close>.
\<close>

fun py_int_of_float :: "pyfloat \<Rightarrow> pyerror + int" where
  "py_int_of_float (Finite q) = Inr (if 0 \<le> q then \<lfloor>q\<rfloor> else \<lceil>q\<rceil>)"
| "py_int_of_float NegZero = Inr 0"
| "py_int_of_float PosInf = Inl OverflowError"
| "py_int_of_float NegInf = Inl OverflowError"
| "py_int_of_float NaN = Inl ValueError"

text \<open>
  The conversion of an integer operand in mixed arithmetic (\<^verbatim>\<open>val * multiplier\<close>):
  correctly rounded, \<^verbatim>\<open>OverflowError\<close> when the integer is too large for a float.
\<close>

definition py_float_of_int :: "int \<Rightarrow> pyerror + pyfloat" where
  "py_float_of_int n =
     (case fl (of_int n) of
        PosInf \<Rightarrow> Inl OverflowError
      | NegInf \<Rightarrow> Inl OverflowError
      | x \<Rightarrow> Inr x)"


subsection \<open>Text\<close>

definition newline :: char where
  "newline = char_of (10 :: nat)"

definition is_digit :: "char \<Rightarrow> bool" where
  "is_digit c = (48 \<le> (of_char c :: nat) \<and> (of_char c :: nat) \<le> 57)"

definition digit_val :: "char \<Rightarrow> int" where
  "digit_val c = int (of_char c) - 48"

definition digit_char :: "int \<Rightarrow> char" where
  "digit_char d = char_of (48 + nat d)"

text \<open>
  White space as \<^verbatim>\<open>str.strip()\<close> sees it (\<^verbatim>\<open>str.isspace\<close> below code point 256),
  and as \<^verbatim>\<open>float()\<close> and \<^verbatim>\<open>int()\<close> skip it around a numeral: these do not skip
  the separators \<^verbatim>\<open>\x1c\<close> to \<^verbatim>\<open>\x1f\<close>.
\<close>

definition is_space :: "char \<Rightarrow> bool" where
  "is_space c =
     (let n = (of_char c :: nat)
      in (9 \<le> n \<and> n \<le> 13) \<or> (28 \<le> n \<and> n \<le> 32) \<or> n = 133 \<or> n = 160)"

definition is_num_space :: "char \<Rightarrow> bool" where
  "is_num_space c =
     (let n = (of_char c :: nat)
      in (9 \<le> n \<and> n \<le> 13) \<or> n = 32 \<or> n = 133 \<or> n = 160)"

definition strip_with :: "(char \<Rightarrow> bool) \<Rightarrow> string \<Rightarrow> string" where
  "strip_with sp s = rev (dropWhile sp (rev (dropWhile sp s)))"

text \<open>\<^verbatim>\<open>s.strip()\<close>\<close>

definition py_strip :: "string \<Rightarrow> string" where
  "py_strip s = strip_with is_space s"

text \<open>\<^verbatim>\<open>s.startswith(p)\<close>\<close>

fun startswith :: "string \<Rightarrow> string \<Rightarrow> bool" where
  "startswith s [] = True"
| "startswith [] (p # ps) = False"
| "startswith (c # cs) (p # ps) = (c = p \<and> startswith cs ps)"

text \<open>\<^verbatim>\<open>p in s\<close> on text: \<open>p\<close> occurs in \<open>s\<close> as a contiguous piece.\<close>

fun py_in :: "string \<Rightarrow> string \<Rightarrow> bool" where
  "py_in p [] = (p = [])"
| "py_in p (c # cs) = (startswith (c # cs) p \<or> py_in p cs)"

text \<open>\<^verbatim>\<open>s.split(sep)\<close> for a separator of one character: empty pieces are kept.\<close>

fun py_split :: "char \<Rightarrow> string \<Rightarrow> string list" where
  "py_split sep [] = [[]]"
| "py_split sep (c # cs) =
     (if c = sep then [] # py_split sep cs
      else (case py_split sep cs of
              [] \<Rightarrow> [[c]]
            | p # ps \<Rightarrow> (c # p) # ps))"

text \<open>Decimal digits of a natural number, and \<^verbatim>\<open>str(n)\<close> for an integer.\<close>

function digits_of :: "int \<Rightarrow> string" where
  "digits_of n =
     (if n < 10 then [digit_char n]
      else digits_of (n div 10) @ [digit_char (n mod 10)])"
  by pat_completeness auto
termination
  by (relation "measure nat") auto

declare digits_of.simps [simp del]

definition py_str_int :: "int \<Rightarrow> string" where
  "py_str_int n = (if n < 0 then CHR ''-'' # digits_of (- n) else digits_of n)"

text \<open>\<^verbatim>\<open>f"{n:02}"\<close>: at least two characters, filled with zeros after the sign.\<close>

definition py_fmt_02 :: "int \<Rightarrow> string" where
  "py_fmt_02 n = (if 0 \<le> n \<and> n < 10 then CHR ''0'' # digits_of n else py_str_int n)"

subsection \<open>Numerals: \<^verbatim>\<open>int(s)\<close> and \<^verbatim>\<open>float(s)\<close>\<close>

text \<open>
  A digit part is \<^verbatim>\<open>digit (["_"] digit)*\<close>.  \<open>digits_from v n cs\<close> reads the rest
  of a digit part after a digit, with the value \<open>v\<close> and the number \<open>n\<close> of the digits
  read so far.
\<close>

fun digits_from :: "int \<Rightarrow> nat \<Rightarrow> string \<Rightarrow> (int \<times> nat) option" where
  "digits_from v n [] = Some (v, n)"
| "digits_from v n [c] =
     (if is_digit c then Some (10 * v + digit_val c, Suc n) else None)"
| "digits_from v n (c # d # cs) =
     (if is_digit c then digits_from (10 * v + digit_val c) (Suc n) (d # cs)
      else if c = CHR ''_'' \<and> is_digit d then digits_from v n (d # cs)
      else None)"

definition digitpart :: "string \<Rightarrow> (int \<times> nat) option" where
  "digitpart s =
     (case s of
        [] \<Rightarrow> None
      | c # cs \<Rightarrow> if is_digit c then digits_from (digit_val c) 1 cs else None)"

definition split_sign :: "string \<Rightarrow> bool \<times> string" where
  "split_sign s =
     (case s of
        [] \<Rightarrow> (False, [])
      | c # cs \<Rightarrow>
          if c = CHR ''-'' then (True, cs)
          else if c = CHR ''+'' then (False, cs)
          else (False, s))"

text \<open>
  \<^verbatim>\<open>int(s)\<close> in base 10; \<open>Inl ValueError\<close> is the exception.  (Digits beyond
  Latin-1 and the interpreter's limit on the length of a numeral are outside the model.)
\<close>

definition py_int :: "string \<Rightarrow> pyerror + int" where
  "py_int s =
     (let (neg, body) = split_sign (strip_with is_num_space s)
      in case digitpart body of
           None \<Rightarrow> Inl ValueError
         | Some (v, n) \<Rightarrow> Inr (if neg then - v else v))"

definition pow10 :: "int \<Rightarrow> rat" where
  "pow10 e = (if 0 \<le> e then 10 ^ nat e else 1 / 10 ^ nat (- e))"

definition lower :: "char \<Rightarrow> char" where
  "lower c =
     (let n = (of_char c :: nat) in if 65 \<le> n \<and> n \<le> 90 then char_of (n + 32) else c)"

definition is_exp_char :: "char \<Rightarrow> bool" where
  "is_exp_char c = (c = CHR ''e'' \<or> c = CHR ''E'')"

text \<open>\<^verbatim>\<open>number ::= [digitpart] "." digitpart | digitpart ["."]\<close>\<close>

definition float_mantissa :: "string \<Rightarrow> rat option" where
  "float_mantissa m =
     (let ip = takeWhile (\<lambda>c. c \<noteq> CHR ''.'') m;
          rest = dropWhile (\<lambda>c. c \<noteq> CHR ''.'') m
      in case rest of
           [] \<Rightarrow> map_option (\<lambda>(v, n). of_int v) (digitpart ip)
         | dot # fp \<Rightarrow>
             if fp = [] then map_option (\<lambda>(v, n). of_int v) (digitpart ip)
             else (case digitpart fp of
                     None \<Rightarrow> None
                   | Some (fv, fn) \<Rightarrow>
                       if ip = [] then Some (of_int fv / 10 ^ fn)
                       else map_option (\<lambda>(v, n). of_int v + of_int fv / 10 ^ fn)
                              (digitpart ip)))"

text \<open>\<^verbatim>\<open>exponent ::= ("e" | "E") [sign] digitpart\<close>, after the letter.\<close>

definition float_exponent :: "string \<Rightarrow> int option" where
  "float_exponent x =
     (let (neg, body) = split_sign x
      in map_option (\<lambda>(v, n). if neg then - v else v) (digitpart body))"

definition float_number :: "string \<Rightarrow> rat option" where
  "float_number body =
     (let m = takeWhile (\<lambda>c. \<not> is_exp_char c) body;
          rest = dropWhile (\<lambda>c. \<not> is_exp_char c) body
      in case rest of
           [] \<Rightarrow> float_mantissa m
         | e # x \<Rightarrow>
             (case (float_mantissa m, float_exponent x) of
                (Some q, Some k) \<Rightarrow> Some (q * pow10 k)
              | _ \<Rightarrow> None))"

text \<open>
  \<^verbatim>\<open>float(s)\<close>: the numeral is rounded correctly to the nearest float; the words
  \<^verbatim>\<open>inf\<close>, \<^verbatim>\<open>infinity\<close> and \<^verbatim>\<open>nan\<close> are read in any case of letters.
\<close>

definition py_float :: "string \<Rightarrow> pyerror + pyfloat" where
  "py_float s =
     (let (neg, body) = split_sign (strip_with is_num_space s);
          word = map lower body
      in if word = ''inf'' \<or> word = ''infinity'' then Inr (if neg then NegInf else PosInf)
         else if word = ''nan'' then Inr NaN
         else case float_number body of
                None \<Rightarrow> Inl ValueError
              | Some q \<Rightarrow> Inr (if q = 0 \<and> neg then NegZero else fl (if neg then - q else q)))"

subsection \<open>Floats as text: \<^verbatim>\<open>str(x)\<close> and \<^verbatim>\<open>f"{x:.1f}"\<close>\<close>

function declen :: "int \<Rightarrow> int" where
  "declen n = (if n \<le> 0 then 0 else 1 + declen (n div 10))"
  by pat_completeness auto
termination
  by (relation "measure nat") auto

declare declen.simps [simp del]

text \<open>\<open>ilog10 q\<close> is the integer \<open>k\<close> with \<open>10^k \<le> q < 10^(k+1)\<close>, for \<open>q > 0\<close>.\<close>

definition ilog10 :: "rat \<Rightarrow> int" where
  "ilog10 q = (if 1 \<le> q then declen \<lfloor>q\<rfloor> - 1 else - declen (\<lceil>1 / q\<rceil> - 1))"

text \<open>
  \<^verbatim>\<open>str\<close> of a float is its \<^verbatim>\<open>repr\<close>: the shortest decimal numeral that
  \<^verbatim>\<open>float()\<close> reads back as the same float, and among those of that length the one
  nearest to it.  \<open>shortest_from k a n\<close> tries \<open>n\<close>, \<open>n + 1\<close>, \dots significant
  digits for the float \<open>a > 0\<close>, and after \<open>k\<close> failures takes the nearest numeral of
  the next length (seventeen digits always read back).  The result \<open>(d, s)\<close> stands for
  \<open>d * 10^s\<close>.
\<close>

fun shortest_from :: "nat \<Rightarrow> rat \<Rightarrow> int \<Rightarrow> int \<times> int" where
  "shortest_from 0 a n =
     (let s = ilog10 a - n + 1 in (round_half_even (a / pow10 s), s))"
| "shortest_from (Suc k) a n =
     (let s = ilog10 a - n + 1;
          lo = \<lfloor>a / pow10 s\<rfloor>;
          hi = lo + 1;
          ok_lo = (fl (of_int lo * pow10 s) = Finite a);
          ok_hi = (fl (of_int hi * pow10 s) = Finite a);
          lo_nearer = (a - of_int lo * pow10 s \<le> of_int hi * pow10 s - a)
      in if ok_lo \<and> (lo_nearer \<or> \<not> ok_hi) then (lo, s)
         else if ok_hi then (hi, s)
         else shortest_from k a (n + 1))"

function strip_zeros :: "int \<Rightarrow> int \<Rightarrow> int \<times> int" where
  "strip_zeros d s =
     (if 0 < d \<and> d mod 10 = 0 then strip_zeros (d div 10) (s + 1) else (d, s))"
  by pat_completeness auto
termination
  by (relation "measure (\<lambda>(d, s). nat d)") auto

declare strip_zeros.simps [simp del]

text \<open>
  The layout of \<^verbatim>\<open>repr\<close>: positional when the decimal point falls within
  \<^verbatim>\<open>-4 < decpt <= 16\<close>, with exponent otherwise (of two digits at least).
\<close>

definition float_repr_pos :: "rat \<Rightarrow> string" where
  "float_repr_pos a =
     (let (d0, s0) = shortest_from 16 a 1;
          (d, s) = strip_zeros d0 s0;
          ds = digits_of d;
          decpt = int (length ds) + s
      in if - 4 < decpt \<and> decpt \<le> 16 then
           (if decpt \<le> 0 then ''0.'' @ replicate (nat (- decpt)) (CHR ''0'') @ ds
            else if int (length ds) \<le> decpt
              then ds @ replicate (nat (decpt - int (length ds))) (CHR ''0'') @ ''.0''
            else take (nat decpt) ds @ ''.'' @ drop (nat decpt) ds)
         else
           (let e = decpt - 1
            in take 1 ds @ (if 1 < length ds then ''.'' @ drop 1 ds else [])
               @ ''e'' @ (if e < 0 then ''-'' else ''+'') @ py_fmt_02 \<bar>e\<bar>))"

fun py_str_float :: "pyfloat \<Rightarrow> string" where
  "py_str_float (Finite q) =
     (if q = 0 then ''0.0''
      else if q < 0 then CHR ''-'' # float_repr_pos (- q)
      else float_repr_pos q)"
| "py_str_float NegZero = ''-0.0''"
| "py_str_float PosInf = ''inf''"
| "py_str_float NegInf = ''-inf''"
| "py_str_float NaN = ''nan''"

text \<open>
  \<^verbatim>\<open>f"{x:.1f}"\<close>: the exact value rounded to one decimal, ties to even, with the
  sign of the float.
\<close>

definition fixed1 :: "rat \<Rightarrow> string" where
  "fixed1 a =
     (let n = round_half_even (a * 10)
      in digits_of (n div 10) @ ''.'' @ digits_of (n mod 10))"

fun py_fmt_1f :: "pyfloat \<Rightarrow> string" where
  "py_fmt_1f (Finite q) = (if q < 0 then CHR ''-'' # fixed1 (- q) else fixed1 q)"
| "py_fmt_1f NegZero = ''-0.0''"
| "py_fmt_1f PosInf = ''inf''"
| "py_fmt_1f NegInf = ''-inf''"
| "py_fmt_1f NaN = ''nan''"

section \<open>The state of the program\<close>

text \<open>
  The module keeps its state in globals and in Tk widgets.  \<open>ser\<close> is the serial port,
  seen from the host as the list of the buffers passed to \<^verbatim>\<open>ser.write\<close>, oldest
  first: one element for each call.  \<open>console_box\<close> is the list of the messages passed to
  \<^verbatim>\<open>add_console_log\<close> (the clock stamp in front of each is left out).  A label is its
  text, with its colour where the program sets one.
\<close>

text \<open>
  The dictionary \<^verbatim>\<open>totals\<close>: its six keys are fixed when the module is loaded and
  no key is added or removed afterwards, so it is a record of its six values.  The
  value of \<^verbatim>\<open>"time"\<close> is the integer 0 until the first trial and a float from then
  on; 0 and 0.0 behave alike in the two places that read it (\<^verbatim>\<open>+=\<close> with a float,
  and \<^verbatim>\<open>:.1f\<close>), so it is a float throughout.
\<close>

record totals_dict =
  t_time :: pyfloat
  t_fix :: int
  t_escape :: int
  t_timeup :: int
  t_struggle :: int
  t_reward :: int

text \<open>The list \<^verbatim>\<open>event_data\<close> built from an \<^verbatim>\<open>EVENT\<close> line (lines 151 to 154).\<close>

record event_data =
  ev_duration :: pyfloat
  ev_fix :: int
  ev_escape :: int
  ev_timeup :: int
  ev_struggle :: int
  ev_reward :: int

datatype axis = Forward | Backward | Upward | Downward

record gui =
  ser :: "string list"
  flush_active :: bool
  free_reward_enabled :: bool
  habituation_enabled :: bool
  struggle_threshold :: pyfloat
  fix_duration :: int
  fix_delay :: int
  escape_buffer :: int
  reward_buffer :: int
  totals :: totals_dict
  session_start_time :: "pyfloat option"
  timer_running :: bool
  console_box :: "string list"
  flush_button :: string
  session_timer_label :: string
  fixation_label :: "string \<times> string"
  struggle_label :: "string \<times> string"
  totals_row :: "string list"
  last_row :: "string list"
  axis_state :: "axis \<Rightarrow> bool"
  axis_button_bg :: "axis \<Rightarrow> string"
  files :: "(string \<times> string list list) list"


definition zero_totals :: totals_dict where
  "zero_totals =
     \<lparr>t_time = Finite 0, t_fix = 0, t_escape = 0, t_timeup = 0, t_struggle = 0,
      t_reward = 0\<rparr>"

text \<open>The state when the main loop starts (lines 13 to 27 and the widgets' first texts).\<close>

definition init_gui :: gui where
  "init_gui =
     \<lparr>ser = [],
      flush_active = False,
      free_reward_enabled = True,
      habituation_enabled = False,
      struggle_threshold = Finite 350,
      fix_duration = 7,
      fix_delay = 1,
      escape_buffer = 500,
      reward_buffer = 1000,
      totals = zero_totals,
      session_start_time = None,
      timer_running = False,
      console_box = [],
      flush_button = ''Flush Water'',
      session_timer_label = ''Session Time: 00:00:00'',
      fixation_label = (''Fixation: INACTIVE'', ''red''),
      struggle_label = (''Struggle: NO'', ''gray''),
      totals_row = replicate 6 ''0'',
      last_row = replicate 6 ''0'',
      axis_state = (\<lambda>a. False),
      axis_button_bg = (\<lambda>a. ''#e0e0e0''),
      files = []\<rparr>"

section \<open>The operations\<close>

definition add_console_log :: "string \<Rightarrow> gui \<Rightarrow> gui" where
  "add_console_log msg s = s\<lparr>console_box := console_box s @ [msg]\<rparr>"

definition ser_write :: "string \<Rightarrow> gui \<Rightarrow> gui" where
  "ser_write bytes s = s\<lparr>ser := ser s @ [bytes]\<rparr>"






text \<open>Sequencing of steps that may raise.\<close>

definition exc_bind :: "pyerror + 'a \<Rightarrow> ('a \<Rightarrow> pyerror + 'b) \<Rightarrow> pyerror + 'b" where
  "exc_bind m f = (case m of Inl e \<Rightarrow> Inl e | Inr x \<Rightarrow> f x)"

text \<open>\<^verbatim>\<open>val * multiplier\<close> for a float and an integer.\<close>

definition py_fmul_int :: "pyfloat \<Rightarrow> int \<Rightarrow> pyerror + pyfloat" where
  "py_fmul_int val multiplier = exc_bind (py_float_of_int multiplier) (\<lambda>m. Inr (py_fmul val m))"

text \<open>
  \<^verbatim>\<open>send_value(entry, command, label, multiplier=1)\<close>, lines 65 to 72.  \<open>entry\<close> is
  the text in the entry field when the button is pressed.  \<open>send_value_try\<close> is the body
  of the \<^verbatim>\<open>try\<close>: every step that can raise comes before the write, so a raise leaves
  the state as it was.  A \<^verbatim>\<open>ValueError\<close> is caught and logged; any other exception
  leaves the function (\<open>Inl\<close>).
\<close>

definition send_value_try :: "string \<Rightarrow> string \<Rightarrow> string \<Rightarrow> int \<Rightarrow> gui \<Rightarrow> pyerror + gui" where
  "send_value_try entry command label multiplier s =
     exc_bind (py_float entry) (\<lambda>val.
     exc_bind (py_fmul_int val multiplier) (\<lambda>scaled.
     exc_bind (py_int_of_float scaled) (\<lambda>n.
       Inr (add_console_log (label @ '' set to '' @ py_str_float val)
              (ser_write (command @ py_str_int n @ [newline]) s)))))"

definition send_value :: "string \<Rightarrow> string \<Rightarrow> string \<Rightarrow> int \<Rightarrow> gui \<Rightarrow> pyerror + gui" where
  "send_value entry command label multiplier s =
     (case send_value_try entry command label multiplier s of
        Inl ValueError \<Rightarrow> Inr (add_console_log (''Invalid input for '' @ label) s)
      | Inl e \<Rightarrow> Inl e
      | Inr s' \<Rightarrow> Inr s')"

definition send_threshold :: "string \<Rightarrow> gui \<Rightarrow> pyerror + gui" where
  "send_threshold threshold_entry = send_value threshold_entry ''T'' ''Struggle Threshold'' 1"

definition send_fix_duration :: "string \<Rightarrow> gui \<Rightarrow> pyerror + gui" where
  "send_fix_duration fix_duration_entry =
     send_value fix_duration_entry ''X'' ''Fix Duration'' 1000"

definition send_fix_delay :: "string \<Rightarrow> gui \<Rightarrow> pyerror + gui" where
  "send_fix_delay fix_delay_entry = send_value fix_delay_entry ''Y'' ''Fix Delay'' 1000"

definition send_escape_buffer :: "string \<Rightarrow> gui \<Rightarrow> pyerror + gui" where
  "send_escape_buffer escape_buffer_entry =
     send_value escape_buffer_entry ''Z'' ''Escape Buffer'' 1"

definition send_reward_buffer :: "string \<Rightarrow> gui \<Rightarrow> pyerror + gui" where
  "send_reward_buffer reward_buffer_entry =
     send_value reward_buffer_entry ''Q'' ''Reward Buffer'' 1"

text \<open>\<^verbatim>\<open>update_table(event_data)\<close>, lines 82 to 99.\<close>

definition update_table :: "event_data \<Rightarrow> gui \<Rightarrow> gui" where
  "update_table ev s =
     (let s1 = s\<lparr>last_row :=
                   [py_str_float (ev_duration ev), py_str_int (ev_fix ev),
                    py_str_int (ev_escape ev), py_str_int (ev_timeup ev),
                    py_str_int (ev_struggle ev), py_str_int (ev_reward ev)]\<rparr>;
          t = totals s1;
          t1 = t\<lparr>t_time := py_fadd (t_time t) (ev_duration ev)\<rparr>;
          t2 = t1\<lparr>t_fix := t_fix t1 + ev_fix ev\<rparr>;
          t3 = t2\<lparr>t_escape := t_escape t2 + ev_escape ev\<rparr>;
          t4 = t3\<lparr>t_timeup := t_timeup t3 + ev_timeup ev\<rparr>;
          t5 = t4\<lparr>t_struggle := t_struggle t4 + ev_struggle ev\<rparr>;
          t6 = t5\<lparr>t_reward := t_reward t5 + ev_reward ev\<rparr>;
          s2 = s1\<lparr>totals := t6\<rparr>
      in s2\<lparr>totals_row :=
              [py_fmt_1f (t_time (totals s2)), py_str_int (t_fix (totals s2)),
               py_str_int (t_escape (totals s2)), py_str_int (t_timeup (totals s2)),
               py_str_int (t_struggle (totals s2)), py_str_int (t_reward (totals s2))]\<rparr>)"



subsection \<open>The serial reader\<close>

text \<open>\<^verbatim>\<open>xs[i]\<close> for an index that is not negative.\<close>

definition py_index :: "'a list \<Rightarrow> nat \<Rightarrow> pyerror + 'a" where
  "py_index xs i = (if i < length xs then Inr (xs ! i) else Inl IndexError)"

text \<open>
  The list display of lines 151 to 154: the conversions run from left to right and the
  first one that fails raises.
\<close>

definition parse_event :: "string list \<Rightarrow> pyerror + event_data" where
  "parse_event parts =
     exc_bind (exc_bind (py_index parts 1) py_float) (\<lambda>duration.
     exc_bind (exc_bind (py_index parts 2) py_int) (\<lambda>fix.
     exc_bind (exc_bind (py_index parts 3) py_int) (\<lambda>escape.
     exc_bind (exc_bind (py_index parts 4) py_int) (\<lambda>timeup.
     exc_bind (exc_bind (py_index parts 5) py_int) (\<lambda>struggle.
     exc_bind (exc_bind (py_index parts 6) py_int) (\<lambda>reward.
       Inr \<lparr>ev_duration = duration, ev_fix = fix, ev_escape = escape,
            ev_timeup = timeup, ev_struggle = struggle, ev_reward = reward\<rparr>))))))"

text \<open>
  Lines 148 to 155.  A conversion that raises does so before \<^verbatim>\<open>update_table\<close> is
  called.
\<close>

definition event_lines :: "string \<Rightarrow> gui \<Rightarrow> pyerror + gui" where
  "event_lines line s =
     (if startswith line ''EVENT,'' then
        (let parts = py_split (CHR '','') line
         in if length parts = 7
            then exc_bind (parse_event parts) (\<lambda>event_data. Inr (update_table event_data s))
            else Inr s)
      else Inr s)"

text \<open>Lines 158 to 169: the messages about the fixation, one \<^verbatim>\<open>if/elif\<close> chain.\<close>

definition fixation_lines :: "string \<Rightarrow> gui \<Rightarrow> gui" where
  "fixation_lines line s =
     (if py_in ''Fixation Engaged'' line then
        add_console_log ''Fixation Engaged''
          (s\<lparr>fixation_label := (''Fixation: ACTIVE'', ''green'')\<rparr>)
      else if py_in ''Fixation Released'' line then
        add_console_log ''Fixation Released''
          (s\<lparr>fixation_label := (''Fixation: INACTIVE'', ''red'')\<rparr>)
      else if py_in ''Escape Event'' line then
        add_console_log ''Escape Event''
          (s\<lparr>fixation_label := (''Fixation: ESCAPE'', ''yellow'')\<rparr>)
      else if py_in ''Time-Up Release'' line then
        add_console_log ''Time-Up Release''
          (s\<lparr>fixation_label := (''Fixation: TIME UP'', ''purple'')\<rparr>)
      else s)"

text \<open>Lines 171 to 175: the messages about the struggle, a chain of its own.\<close>

definition struggle_lines :: "string \<Rightarrow> gui \<Rightarrow> gui" where
  "struggle_lines line s =
     (if py_in ''Struggle YES'' line then
        add_console_log ''Struggle Detected - Released''
          (s\<lparr>struggle_label := (''Struggle: YES'', ''red'')\<rparr>)
      else if py_in ''Struggle NO'' line then
        s\<lparr>struggle_label := (''Struggle: NO'', ''gray'')\<rparr>
      else s)"

text \<open>Lines 177 and 178.\<close>

definition reward_lines :: "string \<Rightarrow> gui \<Rightarrow> gui" where
  "reward_lines line s =
     (if py_in ''Reward Given'' line then add_console_log ''Reward Given'' s else s)"

text \<open>Lines 158 to 178: the three groups of messages, one after the other.\<close>

definition status_lines :: "string \<Rightarrow> gui \<Rightarrow> gui" where
  "status_lines line s = reward_lines line (struggle_lines line (fixation_lines line s))"

text \<open>
  One turn of the loop of \<^verbatim>\<open>update_serial\<close>, lines 142 to 181, for the text \<open>raw\<close>
  that \<^verbatim>\<open>ser.readline().decode('utf-8', errors='ignore')\<close> returns (empty after a
  timeout).  The bare \<^verbatim>\<open>except\<close> ends the turn on any exception; the only
  statements that can raise are the conversions, which come before every change of
  state, so the state is then the one the turn started with.
\<close>

definition update_serial_turn :: "string \<Rightarrow> gui \<Rightarrow> gui" where
  "update_serial_turn raw s =
     (let line = py_strip raw
      in if line = [] then s
         else (case event_lines line s of
                 Inl e \<Rightarrow> s
               | Inr s1 \<Rightarrow> status_lines line s1))"

text \<open>
  \<^verbatim>\<open>update_serial\<close> never returns (\<^verbatim>\<open>while True\<close>); its effect after the
  reads \<open>raws\<close>, in the order of their arrival, is the effect of the turns.
\<close>

definition update_serial :: "string list \<Rightarrow> gui \<Rightarrow> gui" where
  "update_serial raws s = foldl (\<lambda>s raw. update_serial_turn raw s) s raws"

subsection \<open>Session, table and actuator\<close>





text \<open>\<^verbatim>\<open>send_level(level)\<close>, lines 334 to 336.\<close>

definition send_level :: "int \<Rightarrow> gui \<Rightarrow> gui" where
  "send_level level s =
     add_console_log (''Actuator Level '' @ py_str_int level @ '' Selected'')
       (ser_write (''L'' @ py_str_int level @ [newline]) s)"

text \<open>The levels that have a button: \<^verbatim>\<open>range(1, 6)\<close>, line 338.\<close>

definition level_buttons :: "int list" where
  "level_buttons = [1, 2, 3, 4, 5]"


subsection \<open>Everything that can happen\<close>


text \<open>An exception that leaves a callback is reported by Tk; the state stays.\<close>

definition unless_raised :: "gui \<Rightarrow> pyerror + gui \<Rightarrow> gui" where
  "unless_raised s r = (case r of Inl e \<Rightarrow> s | Inr s' \<Rightarrow> s')"


section \<open>Vocabulary of the properties\<close>






text \<open>
  A float whose value rounding leaves as it is.
\<close>

definition representable :: "pyfloat \<Rightarrow> bool" where
  "representable x = (case x of Finite q \<Rightarrow> fl q = Finite q | _ \<Rightarrow> True)"

text \<open>
  \<open>n\<close> is \<open>q\<close> without its fraction: the integer of largest magnitude between 0 and
  \<open>q\<close>.
\<close>

definition truncates_toward_zero :: "int \<Rightarrow> rat \<Rightarrow> bool" where
  "truncates_toward_zero n q =
     (\<bar>of_int n\<bar> \<le> \<bar>q\<bar> \<and> \<bar>q\<bar> < \<bar>of_int n\<bar> + 1 \<and> 0 \<le> of_int n * q)"

text \<open>
  Five letters that occur in no numeral accepted by \<^verbatim>\<open>float()\<close> or \<^verbatim>\<open>int()\<close>; each of
  the seven phrases of the device holds one of them.
\<close>

definition no_numeral_char :: "char \<Rightarrow> bool" where
  "no_numeral_char c =
     (c = CHR ''x'' \<or> c = CHR ''s'' \<or> c = CHR ''m'' \<or> c = CHR ''u'' \<or> c = CHR ''w'')"

text \<open>
  The seven phrases that lines 158 to 177 look for.
\<close>

definition status_phrases :: "string list" where
  "status_phrases =
     [''Fixation Engaged'', ''Fixation Released'', ''Escape Event'', ''Time-Up Release'',
      ''Struggle YES'', ''Struggle NO'', ''Reward Given'']"

section \<open>Lemmas and properties\<close>

lemma pow2_powi: "pow2 e = 2 powi e"
  by (simp add: pow2_def power_int_def inverse_eq_divide power_one_over)

lemma pow2_pos [simp]: "0 < pow2 e"
  by (simp add: pow2_powi)

lemma pow2_nonzero [simp]: "pow2 e \<noteq> 0"
  by (simp add: pow2_powi)

lemma pow2_nonneg [simp]: "0 \<le> pow2 e"
  using pow2_pos [of e] by (rule less_imp_le)

lemma pow2_add: "pow2 (a + b) = pow2 a * pow2 b"
  by (simp add: pow2_powi power_int_add)

lemma pow2_inverse: "pow2 (- a) = 1 / pow2 a"
proof -
  have "pow2 (- a) * pow2 a = 1"
    using pow2_add [of "- a" a] by (simp add: pow2_def)
  then show ?thesis
    by (simp add: eq_divide_eq)
qed

lemma pow2_less: "a < b \<Longrightarrow> pow2 a < pow2 b"
  by (simp add: pow2_powi power_int_strict_increasing)

lemma pow2_le: "a \<le> b \<Longrightarrow> pow2 a \<le> pow2 b"
  by (simp add: pow2_powi power_int_increasing)

lemma pow2_less_cancel: "pow2 a < pow2 b \<Longrightarrow> a < b"
  using pow2_le [of b a] by (cases "a < b") auto

lemma pow2_nat: "0 \<le> k \<Longrightarrow> pow2 k = of_int (2 ^ nat k)"
  by (simp add: pow2_def)

lemma bitlen_pos: "0 < n \<Longrightarrow> bitlen n = 1 + bitlen (n div 2)"
  by (subst bitlen.simps) simp

lemma bitlen_nonpos: "n \<le> 0 \<Longrightarrow> bitlen n = 0"
  by (subst bitlen.simps) simp

lemma bitlen_bounds:
  "0 < n \<Longrightarrow> 1 \<le> bitlen n \<and> 2 ^ nat (bitlen n - 1) \<le> n \<and> n < 2 ^ nat (bitlen n)"
proof (induction n rule: bitlen.induct)
  case (1 n)
  show ?case
  proof (cases "n = 1")
    case True
    then show ?thesis
      by (simp add: bitlen_pos bitlen_nonpos)
  next
    case False
    with "1.prems" have h: "0 < n div 2" "\<not> n \<le> 0"
      by auto
    define b where "b = bitlen (n div 2)"
    from "1.IH" [OF h(2) h(1)] have ih: "1 \<le> b" "2 ^ nat (b - 1) \<le> n div 2" "n div 2 < 2 ^ nat b"
      by (simp_all add: b_def)
    have bn: "bitlen n = 1 + b"
      using "1.prems" by (simp add: bitlen_pos b_def)
    have e1: "nat (1 + b - 1) = Suc (nat (b - 1))" and e2: "nat (1 + b) = Suc (nat b)"
      using ih(1) by auto
    have e3: "nat b = Suc (nat (b - 1))"
      using ih(1) by auto
    have "(2::int) * 2 ^ nat (b - 1) \<le> n"
      using ih(2) by linarith
    then have "(2::int) ^ nat b \<le> n"
      by (simp add: e3)
    moreover have "n < 2 * 2 ^ nat b"
      using ih(3) by linarith
    ultimately show ?thesis
      using ih(1) by (simp add: bn e2)
  qed
qed

lemma ilog2_bounds:
  assumes "0 < q"
  shows "pow2 (ilog2 q) \<le> q \<and> q < pow2 (ilog2 q + 1)"
proof (cases "1 \<le> q")
  case True
  define n where "n = \<lfloor>q\<rfloor>"
  have n: "0 < n" "of_int n \<le> q" "q < of_int n + 1"
    using True floor_correct [of q] by (auto simp: n_def)
  define k where "k = bitlen n - 1"
  from bitlen_bounds [OF n(1)] have b: "0 \<le> k" "2 ^ nat k \<le> n" "n < 2 ^ nat (k + 1)"
    by (simp_all add: k_def)
  have il: "ilog2 q = k"
    using True by (simp add: ilog2_def n_def k_def)
  have "pow2 k \<le> of_int n"
    using b(1,2) by (simp add: pow2_nat flip: of_int_le_iff)
  moreover have "n + 1 \<le> 2 ^ nat (k + 1)"
    using b(3) by simp
  then have "(of_int (n + 1) :: rat) \<le> of_int (2 ^ nat (k + 1))"
    by (simp only: of_int_le_iff)
  then have "of_int n + 1 \<le> pow2 (k + 1)"
    using b(1) by (simp add: pow2_nat)
  ultimately show ?thesis
    using n il by simp
next
  case False
  define r where "r = 1 / q"
  have r: "1 < r" "q = 1 / r"
    using False assms by (simp_all add: r_def)
  define n where "n = \<lceil>r\<rceil> - 1"
  have n: "0 < n" "of_int n < r" "r \<le> of_int n + 1"
    using r(1) ceiling_correct [of r] by (auto simp: n_def less_ceiling_iff)
  define j where "j = bitlen n"
  from bitlen_bounds [OF n(1)] have b: "1 \<le> j" "2 ^ nat (j - 1) \<le> n" "n < 2 ^ nat j"
    by (simp_all add: j_def)
  have il: "ilog2 q = - j"
    using False by (simp add: ilog2_def n_def j_def r_def)
  have "n + 1 \<le> 2 ^ nat j"
    using b(3) by simp
  then have "(of_int (n + 1) :: rat) \<le> of_int (2 ^ nat j)"
    by (simp only: of_int_le_iff)
  then have "of_int n + 1 \<le> pow2 j"
    using b(1) by (simp add: pow2_nat)
  with n(3) have up: "r \<le> pow2 j"
    by simp
  have "pow2 (j - 1) \<le> of_int n"
    using b(1,2) by (simp add: pow2_nat flip: of_int_le_iff)
  with n(2) have lo: "pow2 (j - 1) < r"
    by simp
  have inv: "pow2 (- j) = 1 / pow2 j" "pow2 (- j + 1) = 1 / pow2 (j - 1)"
    using pow2_inverse [of j] pow2_inverse [of "j - 1"] by simp_all
  have "1 / pow2 j \<le> 1 / r"
    using up r(1) by (simp add: frac_le)
  moreover have "1 / r < 1 / pow2 (j - 1)"
    using lo by (simp add: frac_less2)
  ultimately show ?thesis
    using il inv r(2) by simp
qed

lemma ilog2_unique:
  assumes "0 < q" "pow2 k \<le> q" "q < pow2 (k + 1)"
  shows "ilog2 q = k"
proof -
  from ilog2_bounds [OF assms(1)] have "pow2 (ilog2 q) < pow2 (k + 1)" "pow2 k < pow2 (ilog2 q + 1)"
    using assms by auto
  then have "ilog2 q < k + 1" "k < ilog2 q + 1"
    by (auto dest: pow2_less_cancel)
  then show ?thesis
    by simp
qed

lemma round_half_even_of_int [simp]: "round_half_even (of_int n) = n"
  by (simp add: round_half_even_def)

lemma round_half_even_ge: "of_int n \<le> x \<Longrightarrow> n \<le> round_half_even x"
proof -
  assume "of_int n \<le> x"
  then have "n \<le> \<lfloor>x\<rfloor>"
    by (simp add: le_floor_iff)
  then show ?thesis
    by (auto simp: round_half_even_def Let_def)
qed

lemma round_half_even_le: "x \<le> of_int n \<Longrightarrow> round_half_even x \<le> n"
proof -
  assume a: "x \<le> of_int n"
  have f: "\<lfloor>x\<rfloor> \<le> n"
    using a by (simp add: floor_le_iff)
  show ?thesis
  proof (cases "x = of_int \<lfloor>x\<rfloor>")
    case True
    then have "round_half_even x = \<lfloor>x\<rfloor>"
      using round_half_even_of_int [of "\<lfloor>x\<rfloor>"] by simp
    then show ?thesis
      using f by simp
  next
    case False
    then have "of_int \<lfloor>x\<rfloor> < x"
      by (metis of_int_floor_le less_le)
    with a have "of_int \<lfloor>x\<rfloor> < (of_int n :: rat)"
      by simp
    then have "\<lfloor>x\<rfloor> + 1 \<le> n"
      by simp
    with f show ?thesis
      by (auto simp: round_half_even_def Let_def)
  qed
qed

lemma round_to_ulp_eq:
  "round_to_ulp a = of_int (round_half_even (a / pow2 (ulp_exp a))) * pow2 (ulp_exp a)"
  by (simp add: round_to_ulp_def Let_def)

lemma pow2_52: "pow2 52 = of_int (2 ^ 52)" and pow2_53: "pow2 53 = of_int (2 ^ 53)"
  by (simp_all add: pow2_def)

lemma pow2_split: "c = a + b \<Longrightarrow> pow2 c = pow2 a * pow2 b"
  by (simp add: pow2_add)

lemma pow2_le_cancel: "pow2 a \<le> pow2 b \<Longrightarrow> a \<le> b"
  using pow2_less [of b a] by (cases "a \<le> b") auto

lemma round_to_ulp_fixed:
  assumes a: "0 < a" and v: "0 < round_to_ulp a"
  shows "round_to_ulp (round_to_ulp a) = round_to_ulp a"
proof -
  define L where "L = ilog2 a"
  define e where "e = ulp_exp a"
  define m where "m = round_half_even (a / pow2 e)"
  define v where "v = round_to_ulp a"
  have v_eq: "v = of_int m * pow2 e"
    by (simp add: v_def round_to_ulp_eq m_def e_def)
  have vpos: "0 < v"
    using v by (simp add: v_def)
  from ilog2_bounds [OF a] have La: "pow2 L \<le> a" "a < pow2 (L + 1)"
    by (simp_all add: L_def)
  have "\<exists>n. v / pow2 (ulp_exp v) = of_int n"
  proof (cases "- 1074 \<le> L - 52")
    case True
    then have e: "e = L - 52"
      by (simp add: e_def ulp_exp_def L_def)
    have "pow2 L = pow2 52 * pow2 e" "pow2 (L + 1) = pow2 53 * pow2 e"
      by (rule pow2_split, simp add: e)+
    with La have "pow2 52 \<le> a / pow2 e" "a / pow2 e \<le> pow2 53"
      by (simp_all add: pos_le_divide_eq pos_divide_le_eq)
    then have m: "2 ^ 52 \<le> m" "m \<le> 2 ^ 53"
      unfolding pow2_52 pow2_53 m_def
      by (simp_all only: round_half_even_ge round_half_even_le)
    show ?thesis
    proof (cases "m = 2 ^ 53")
      case True
      then have "v = pow2 53 * pow2 e"
        by (simp add: v_eq pow2_53)
      also have "\<dots> = pow2 (L + 1)"
        by (rule pow2_split [symmetric]) (simp add: e)
      finally have v1: "v = pow2 (L + 1)" .
      have "ilog2 v = L + 1"
        by (rule ilog2_unique) (simp_all add: v1 pow2_less)
      then have "ulp_exp v = e + 1"
        using \<open>- 1074 \<le> L - 52\<close> by (simp add: ulp_exp_def e)
      moreover have "pow2 (L + 1) = pow2 52 * pow2 (e + 1)"
        by (rule pow2_split) (simp add: e)
      ultimately have "v / pow2 (ulp_exp v) = of_int (2 ^ 52)"
        by (simp add: v1 pow2_52)
      then show ?thesis ..
    next
      case False
      with m have "m + 1 \<le> 2 ^ 53"
        by simp
      then have "(of_int (m + 1) :: rat) \<le> of_int (2 ^ 53)"
        by (simp only: of_int_le_iff)
      then have "(of_int m :: rat) < pow2 53"
        by (simp add: pow2_53)
      then have "v < pow2 53 * pow2 e"
        by (simp add: v_eq)
      also have "\<dots> = pow2 (L + 1)"
        by (rule pow2_split [symmetric]) (simp add: e)
      finally have up: "v < pow2 (L + 1)" .
      have "(of_int (2 ^ 52) :: rat) \<le> of_int m"
        using m(1) by (simp only: of_int_le_iff)
      then have "pow2 52 * pow2 e \<le> v"
        by (simp add: v_eq pow2_52)
      moreover have "pow2 L = pow2 52 * pow2 e"
        by (rule pow2_split) (simp add: e)
      ultimately have lo: "pow2 L \<le> v"
        by simp
      have "ilog2 v = L"
        using vpos lo up by (rule ilog2_unique)
      then have "ulp_exp v = e"
        by (simp add: ulp_exp_def e_def L_def)
      then have "v / pow2 (ulp_exp v) = of_int m"
        by (simp add: v_eq)
      then show ?thesis ..
    qed
  next
    case False
    then have e: "e = - 1074"
      by (simp add: e_def ulp_exp_def L_def)
    from False have "L + 1 \<le> 52 + e"
      by (simp add: e)
    then have "pow2 (L + 1) \<le> pow2 (52 + e)"
      by (rule pow2_le)
    then have "pow2 (L + 1) \<le> pow2 52 * pow2 e"
      by (simp add: pow2_add)
    with La(2) have "a / pow2 e \<le> pow2 52"
      by (simp add: pos_divide_le_eq)
    then have "m \<le> 2 ^ 52"
      unfolding pow2_52 m_def by (rule round_half_even_le)
    then have "(of_int m :: rat) \<le> of_int (2 ^ 52)"
      by (simp only: of_int_le_iff)
    then have "v \<le> pow2 52 * pow2 e"
      by (simp add: v_eq pow2_52)
    also have "\<dots> = pow2 (- 1022)"
      by (rule pow2_split [symmetric]) (simp add: e)
    finally have "v \<le> pow2 (- 1022)" .
    with ilog2_bounds [OF vpos] have "pow2 (ilog2 v) \<le> pow2 (- 1022)"
      by simp
    then have "ilog2 v \<le> - 1022"
      by (rule pow2_le_cancel)
    then have "ulp_exp v = e"
      by (simp add: ulp_exp_def e)
    then have "v / pow2 (ulp_exp v) = of_int m"
      by (simp add: v_eq)
    then show ?thesis ..
  qed
  then obtain n where n: "v / pow2 (ulp_exp v) = of_int n" ..
  then have "round_to_ulp v = of_int n * pow2 (ulp_exp v)"
    by (simp add: round_to_ulp_eq)
  also have "\<dots> = v"
    using n by (simp add: eq_divide_eq flip: n)
  finally show ?thesis
    by (simp add: v_def)
qed

lemma round_to_ulp_nonneg: "0 \<le> a \<Longrightarrow> 0 \<le> round_to_ulp a"
proof -
  assume "0 \<le> a"
  then have "(of_int 0 :: rat) \<le> a / pow2 (ulp_exp a)"
    by (simp add: zero_le_divide_iff)
  then have "0 \<le> round_half_even (a / pow2 (ulp_exp a))"
    by (rule round_half_even_ge)
  then show ?thesis
    by (simp add: round_to_ulp_eq zero_le_mult_iff)
qed

lemma fl_alt:
  "fl q =
     (if q = 0 then Finite 0
      else if round_to_ulp \<bar>q\<bar> = 0 then (if q < 0 then NegZero else Finite 0)
      else if 1024 \<le> ilog2 (round_to_ulp \<bar>q\<bar>) then (if q < 0 then NegInf else PosInf)
      else Finite (if q < 0 then - round_to_ulp \<bar>q\<bar> else round_to_ulp \<bar>q\<bar>))"
  by (simp add: fl_def Let_def)

lemma fl_idem: "fl q = Finite r \<Longrightarrow> fl r = Finite r"
proof (cases "r = 0")
  case True
  then show ?thesis
    by (simp add: fl_def)
next
  case False
  assume q: "fl q = Finite r"
  define v where "v = round_to_ulp \<bar>q\<bar>"
  from q False have q0: "q \<noteq> 0"
    by (auto simp: fl_def)
  from q False have v0: "v \<noteq> 0" and fin: "\<not> 1024 \<le> ilog2 v"
    and r: "r = (if q < 0 then - v else v)"
    by (auto simp: fl_alt v_def split: if_splits)
  have vpos: "0 < v"
    using round_to_ulp_nonneg [of "\<bar>q\<bar>"] v0 by (simp add: v_def)
  then have fixed: "round_to_ulp v = v"
    using round_to_ulp_fixed [of "\<bar>q\<bar>"] q0 by (simp add: v_def)
  have "\<bar>r\<bar> = v" "r < 0 \<longleftrightarrow> q < 0"
    using vpos r by auto
  then show ?thesis
    using False v0 fin r fixed by (simp add: fl_alt)
qed

lemma floor_rat_numeral: "\<lfloor>(numeral a / numeral b :: rat)\<rfloor> = numeral a div numeral b"
  using floor_divide_of_int_eq [of "numeral a" "numeral b", where ?'a = rat] by simp
lemma ceiling_rat_numeral: "\<lceil>(numeral a / numeral b :: rat)\<rceil> = - (- numeral a div numeral b)"
  using ceiling_divide_eq_div [of "numeral a" "numeral b", where ?'a = rat] by simp

lemma add_console_log_keeps [simp]:
  "totals (add_console_log m s) = totals s"
  "last_row (add_console_log m s) = last_row s"
  "totals_row (add_console_log m s) = totals_row s"
  "ser (add_console_log m s) = ser s"
  "fixation_label (add_console_log m s) = fixation_label s"
  "struggle_label (add_console_log m s) = struggle_label s"
  "console_box (add_console_log m s) = console_box s @ [m]"
  by (simp_all add: add_console_log_def)

lemma ser_write_keeps [simp]:
  "totals (ser_write b s) = totals s"
  "last_row (ser_write b s) = last_row s"
  "totals_row (ser_write b s) = totals_row s"
  "ser (ser_write b s) = ser s @ [b]"
  "fixation_label (ser_write b s) = fixation_label s"
  "struggle_label (ser_write b s) = struggle_label s"
  "console_box (ser_write b s) = console_box s"
  by (simp_all add: ser_write_def)



lemma send_value_keeps:
  "send_value e c l m s = Inr s' \<Longrightarrow> totals s' = totals s \<and> last_row s' = last_row s"
  by (auto simp: send_value_def send_value_try_def exc_bind_def split: sum.splits pyerror.splits)

lemma unless_raised_send_value [simp]:
  "totals (unless_raised s (send_value e c l m s)) = totals s"
  "last_row (unless_raised s (send_value e c l m s)) = last_row s"
  using send_value_keeps [of e c l m s]
  by (auto simp: unless_raised_def split: sum.splits)

lemma status_lines_keep [simp]:
  "totals (fixation_lines line s) = totals s"
  "last_row (fixation_lines line s) = last_row s"
  "totals (struggle_lines line s) = totals s"
  "last_row (struggle_lines line s) = last_row s"
  "totals (reward_lines line s) = totals s"
  "last_row (reward_lines line s) = last_row s"
  by (simp_all add: fixation_lines_def struggle_lines_def reward_lines_def)









lemma digits_of_digit: "0 \<le> n \<Longrightarrow> n < 10 \<Longrightarrow> digits_of n = [digit_char n]"
  by (simp add: digits_of.simps)

lemma py_str_int_digit: "0 \<le> n \<Longrightarrow> n < 10 \<Longrightarrow> py_str_int n = [digit_char n]"
  by (simp add: py_str_int_def digits_of_digit)

text \<open>
  Claim C4, as the code has it.  For every integer level, \<^verbatim>\<open>send_level\<close> writes
  exactly one buffer, the letter L, the decimal numeral of the level and a newline;
  there is no check of the range.  The buttons call it with the levels 1 to 5 only, for
  which the numeral is the one digit.
\<close>

theorem send_level_writes:
  "ser (send_level level s) = ser s @ [''L'' @ py_str_int level @ [newline]]
   \<and> (level \<in> set level_buttons \<longrightarrow> py_str_int level = [digit_char level])
   \<and> set level_buttons = {1..5}"
proof -
  have "set level_buttons = {1..5::int}"
    by (auto simp: level_buttons_def)
  then show ?thesis
    by (auto simp: send_level_def add_console_log_def ser_write_def py_str_int_digit)
qed

text \<open>
  Level 3 writes the three bytes "L3" and newline.
\<close>

theorem send_level_writes_witness:
  "(3::int) \<in> set level_buttons \<and> ser (send_level 3 init_gui) = [''L3'' @ [newline]]"
proof -
  have a: "(3::int) \<in> set level_buttons"
    by (simp add: level_buttons_def)
  have b: "ser init_gui = []"
    by (simp add: init_gui_def)
  have c: "py_str_int 3 = ''3''"
    by code_simp
  from send_level_writes [of 3 init_gui] a b c show ?thesis
    by simp
qed

text \<open>
  The claim C4 as stated fails outside the range: level 6 has no button, and
  \<^verbatim>\<open>send_level(6)\<close> writes "L6" and a newline.
\<close>

theorem send_level_6_is_written:
  "(6::int) \<notin> set level_buttons \<and> ser (send_level 6 init_gui) = [''L6'' @ [newline]]"
proof -
  have a: "(6::int) \<notin> set level_buttons"
    by (simp add: level_buttons_def)
  have b: "ser init_gui = []"
    by (simp add: init_gui_def)
  have c: "py_str_int 6 = ''6''"
    by code_simp
  from a b c show ?thesis
    by (simp add: send_level_def add_console_log_def ser_write_def)
qed


lemma fl_representable: "representable (fl q)"
  by (cases "fl q") (simp_all add: representable_def fl_idem)

lemma py_float_cases:
  "py_float entry = Inr v \<Longrightarrow>
   v = PosInf \<or> v = NegInf \<or> v = NaN \<or> v = NegZero \<or> (\<exists>q. v = fl q)"
  by (auto simp: py_float_def Let_def split: prod.splits if_splits option.splits)

lemma py_float_representable: "py_float entry = Inr v \<Longrightarrow> representable v"
  using py_float_cases [of entry v] fl_representable
  by (auto simp: representable_def)

lemma py_fmul_one: "representable v \<Longrightarrow> py_fmul v (Finite 1) = v"
  by (cases v) (auto simp: py_fmul_def representable_def)

lemma py_float_of_int_1: "py_float_of_int 1 = Inr (Finite 1)"
  by code_simp

lemma py_float_of_int_1000: "py_float_of_int 1000 = Inr (Finite 1000)"
  by code_simp

lemma py_int_of_float_finite:
  "is_finite x \<Longrightarrow> \<exists>n. py_int_of_float x = Inr n"
  by (cases x) simp_all

lemma py_int_of_float_Inr: "py_int_of_float x = Inr n \<Longrightarrow> is_finite x"
  by (cases x) simp_all

lemma fl_overflow:
  assumes "pow2 1024 \<le> q"
  shows "fl q = PosInf"
proof -
  have q: "0 < q"
    using assms pow2_pos [of 1024] by linarith
  define L where "L = ilog2 q"
  define e where "e = ulp_exp q"
  define v where "v = round_to_ulp q"
  from ilog2_bounds [OF q] have Lq: "pow2 L \<le> q" "q < pow2 (L + 1)"
    by (simp_all add: L_def)
  from assms Lq(2) have "pow2 1024 < pow2 (L + 1)"
    by simp
  then have L: "1024 \<le> L"
    using pow2_less_cancel [of 1024 "L + 1"] by simp
  then have e: "e = L - 52"
    by (simp add: e_def ulp_exp_def L_def)
  have split: "pow2 L = pow2 52 * pow2 e"
    by (rule pow2_split) (simp add: e)
  with Lq(1) have "pow2 52 \<le> q / pow2 e"
    by (simp add: pos_le_divide_eq)
  then have "2 ^ 52 \<le> round_half_even (q / pow2 e)"
    unfolding pow2_52 by (rule round_half_even_ge)
  then have "(of_int (2 ^ 52) :: rat) \<le> of_int (round_half_even (q / pow2 e))"
    by (simp only: of_int_le_iff)
  then have "pow2 52 * pow2 e \<le> v"
    by (simp add: v_def round_to_ulp_eq e_def pow2_52)
  with split have lo: "pow2 L \<le> v"
    by simp
  then have vpos: "0 < v"
    using pow2_pos [of L] by linarith
  from ilog2_bounds [OF vpos] lo have "pow2 L < pow2 (ilog2 v + 1)"
    by simp
  then have "L < ilog2 v + 1"
    by (rule pow2_less_cancel)
  with L have "1024 \<le> ilog2 v"
    by simp
  with q vpos show ?thesis
    by (simp add: fl_def v_def)
qed

lemma pow10_pos [simp]: "0 < pow10 e"
  by (simp add: pow10_def)

lemma fl_normal:
  assumes lo: "pow2 k \<le> q" and up: "q < pow2 (k + 1)" and k: "- 1022 \<le> k" "k < 1024"
    and m: "round_half_even (q / pow2 (k - 52)) = m" "m < 2 ^ 53"
  shows "fl q = Finite (of_int m * pow2 (k - 52))"
proof -
  have q: "0 < q"
    using lo pow2_pos [of k] by linarith
  have il: "ilog2 q = k"
    using q lo up by (rule ilog2_unique)
  then have e: "ulp_exp q = k - 52"
    using k by (simp add: ulp_exp_def)
  define v where "v = of_int m * pow2 (k - 52)"
  have v: "round_to_ulp q = v"
    by (simp add: round_to_ulp_eq e m v_def)
  have split: "pow2 k = pow2 52 * pow2 (k - 52)" "pow2 (k + 1) = pow2 53 * pow2 (k - 52)"
    by (rule pow2_split, simp)+
  with lo have "pow2 52 \<le> q / pow2 (k - 52)"
    by (simp add: pos_le_divide_eq)
  then have "2 ^ 52 \<le> m"
    unfolding pow2_52 m(1) [symmetric] by (rule round_half_even_ge)
  then have "(of_int (2 ^ 52) :: rat) \<le> of_int m"
    by (simp only: of_int_le_iff)
  then have "pow2 52 * pow2 (k - 52) \<le> v"
    by (simp add: v_def pow2_52)
  with split have vlo: "pow2 k \<le> v"
    by simp
  from m(2) have "m + 1 \<le> 2 ^ 53"
    by simp
  then have "(of_int (m + 1) :: rat) \<le> of_int (2 ^ 53)"
    by (simp only: of_int_le_iff)
  then have "(of_int m :: rat) < pow2 53"
    by (simp add: pow2_53)
  then have "v < pow2 53 * pow2 (k - 52)"
    by (simp add: v_def)
  with split have vup: "v < pow2 (k + 1)"
    by simp
  have vpos: "0 < v"
    using vlo pow2_pos [of k] by linarith
  have "ilog2 v = k"
    using vpos vlo vup by (rule ilog2_unique)
  with q vpos k show ?thesis
    by (simp add: fl_def v flip: v_def)
qed

lemma py_float_error: "py_float entry = Inl e \<Longrightarrow> e = ValueError"
  by (auto simp: py_float_def Let_def split: prod.splits if_splits option.splits)

lemma send_value_cases:
  assumes "py_float_of_int multiplier = Inr m"
  shows "send_value entry command label multiplier s =
     (case py_float entry of
        Inl e \<Rightarrow> Inr (add_console_log (''Invalid input for '' @ label) s)
      | Inr v \<Rightarrow>
          (case py_int_of_float (py_fmul v m) of
             Inl e \<Rightarrow>
               if e = ValueError then Inr (add_console_log (''Invalid input for '' @ label) s)
               else Inl e
           | Inr n \<Rightarrow>
               Inr (add_console_log (label @ '' set to '' @ py_str_float v)
                      (ser_write (command @ py_str_int n @ [newline]) s))))"
  using py_float_error [of entry]
  by (auto simp: send_value_def send_value_try_def py_fmul_int_def exc_bind_def assms
      split: sum.splits pyerror.splits)

lemma multiplier_float:
  "multiplier = 1 \<or> multiplier = 1000 \<Longrightarrow>
   \<exists>m. py_float_of_int multiplier = Inr (Finite m) \<and> 0 < m"
  using py_float_of_int_1 py_float_of_int_1000 by auto

lemma not_finite_int:
  "\<not> is_finite v \<Longrightarrow> 0 < m \<Longrightarrow>
   py_int_of_float (py_fmul v (Finite m)) = (if v = NaN then Inl ValueError else Inl OverflowError)"
  by (cases v) (simp_all add: py_fmul_def)

text \<open>
  Claim C3, as the code has it.  With the multipliers the program uses (1 and 1000): a
  text that \<^verbatim>\<open>float()\<close> rejects, or that reads as a NaN, is answered with the log line
  "Invalid input for \<dots>" and nothing else changes; a text that reads as an infinity
  makes \<^verbatim>\<open>send_value\<close> raise \<^verbatim>\<open>OverflowError\<close>; in both cases nothing is written to
  the serial port and no parameter changes.  A negative number is not rejected: with
  multiplier 1 it is written, truncated toward zero, like any other number.
\<close>

theorem invalid_parameter_not_sent:
  assumes "multiplier = 1 \<or> multiplier = 1000"
  shows "(py_float entry = Inl ValueError \<or> py_float entry = Inr NaN \<longrightarrow>
            send_value entry command label multiplier s =
              Inr (add_console_log (''Invalid input for '' @ label) s))
       \<and> (py_float entry = Inr PosInf \<or> py_float entry = Inr NegInf \<longrightarrow>
            send_value entry command label multiplier s = Inl OverflowError)
       \<and> ((\<forall>v. py_float entry = Inr v \<longrightarrow> \<not> is_finite v) \<longrightarrow>
            ser (unless_raised s (send_value entry command label multiplier s)) = ser s
          \<and> struggle_threshold (unless_raised s (send_value entry command label multiplier s))
              = struggle_threshold s
          \<and> fix_duration (unless_raised s (send_value entry command label multiplier s))
              = fix_duration s
          \<and> fix_delay (unless_raised s (send_value entry command label multiplier s))
              = fix_delay s
          \<and> escape_buffer (unless_raised s (send_value entry command label multiplier s))
              = escape_buffer s
          \<and> reward_buffer (unless_raised s (send_value entry command label multiplier s))
              = reward_buffer s)
       \<and> (\<forall>q. py_float entry = Inr (Finite q) \<and> q < 0 \<and> multiplier = 1 \<longrightarrow>
            (\<exists>s'. send_value entry command label multiplier s = Inr s'
               \<and> ser s' = ser s @ [command @ py_str_int \<lceil>q\<rceil> @ [newline]]))"
proof -
  from multiplier_float [OF assms] obtain m
    where m: "py_float_of_int multiplier = Inr (Finite m)" "0 < m"
    by blast
  note sv = send_value_cases [OF m(1), of entry command label s]
  have a: "py_float entry = Inl ValueError \<or> py_float entry = Inr NaN \<longrightarrow>
      send_value entry command label multiplier s =
        Inr (add_console_log (''Invalid input for '' @ label) s)"
    using not_finite_int [of NaN m] m(2) by (auto simp: sv)
  have b: "py_float entry = Inr PosInf \<or> py_float entry = Inr NegInf \<longrightarrow>
      send_value entry command label multiplier s = Inl OverflowError"
    using not_finite_int [of PosInf m] not_finite_int [of NegInf m] m(2) by (auto simp: sv)
  have c: "(\<forall>v. py_float entry = Inr v \<longrightarrow> \<not> is_finite v) \<Longrightarrow>
      unless_raised s (send_value entry command label multiplier s) = s
      \<or> unless_raised s (send_value entry command label multiplier s)
          = add_console_log (''Invalid input for '' @ label) s"
    using m(2) by (cases "py_float entry")
      (auto simp: sv unless_raised_def not_finite_int split: sum.splits)
  have d: "\<And>q. py_float entry = Inr (Finite q) \<and> q < 0 \<and> multiplier = 1 \<longrightarrow>
      (\<exists>s'. send_value entry command label multiplier s = Inr s'
         \<and> ser s' = ser s @ [command @ py_str_int \<lceil>q\<rceil> @ [newline]])"
  proof (intro impI, elim conjE)
    fix q
    assume q: "py_float entry = Inr (Finite q)" "q < 0" "multiplier = 1"
    have "py_fmul (Finite q) (Finite 1) = Finite q"
      using py_float_representable [OF q(1)] by (rule py_fmul_one)
    then show "\<exists>s'. send_value entry command label multiplier s = Inr s'
         \<and> ser s' = ser s @ [command @ py_str_int \<lceil>q\<rceil> @ [newline]]"
      using q by (simp add: send_value_cases [OF py_float_of_int_1])
  qed
  from a b c d show ?thesis
    by (auto simp: add_console_log_def)
qed

lemma send_wrappers:
  "send_threshold e = send_value e ''T'' ''Struggle Threshold'' 1"
  "send_fix_duration e = send_value e ''X'' ''Fix Duration'' 1000"
  "send_fix_delay e = send_value e ''Y'' ''Fix Delay'' 1000"
  "send_escape_buffer e = send_value e ''Z'' ''Escape Buffer'' 1"
  "send_reward_buffer e = send_value e ''Q'' ''Reward Buffer'' 1"
  by (simp_all add: send_threshold_def send_fix_duration_def send_fix_delay_def
      send_escape_buffer_def send_reward_buffer_def)

text \<open>
  Claim C7, as the code has it.  For a text that reads as a finite number, the threshold,
  the escape buffer and the reward buffer are written as one buffer each, the letter T,
  Z or Q, the integer part of the number and a newline.  The fixation duration and the
  fixation delay are written with the letters X and Y and the integer part of the
  floating-point product of the number and 1000, when that product is finite.
\<close>

theorem parameter_command_written:
  assumes "py_float entry = Inr v" and "is_finite v"
  shows "(\<exists>n s1 s2 s3. py_int_of_float v = Inr n
            \<and> send_threshold entry s = Inr s1
            \<and> ser s1 = ser s @ [''T'' @ py_str_int n @ [newline]]
            \<and> send_escape_buffer entry s = Inr s2
            \<and> ser s2 = ser s @ [''Z'' @ py_str_int n @ [newline]]
            \<and> send_reward_buffer entry s = Inr s3
            \<and> ser s3 = ser s @ [''Q'' @ py_str_int n @ [newline]])
       \<and> (is_finite (py_fmul v (Finite 1000)) \<longrightarrow>
            (\<exists>k s4 s5. py_int_of_float (py_fmul v (Finite 1000)) = Inr k
               \<and> send_fix_duration entry s = Inr s4
               \<and> ser s4 = ser s @ [''X'' @ py_str_int k @ [newline]]
               \<and> send_fix_delay entry s = Inr s5
               \<and> ser s5 = ser s @ [''Y'' @ py_str_int k @ [newline]]))"
proof -
  have one: "py_fmul v (Finite 1) = v"
    using py_float_representable [OF assms(1)] by (rule py_fmul_one)
  from py_int_of_float_finite [OF assms(2)] obtain n where n: "py_int_of_float v = Inr n" ..
  have unscaled: "\<exists>n s1 s2 s3. py_int_of_float v = Inr n
            \<and> send_threshold entry s = Inr s1
            \<and> ser s1 = ser s @ [''T'' @ py_str_int n @ [newline]]
            \<and> send_escape_buffer entry s = Inr s2
            \<and> ser s2 = ser s @ [''Z'' @ py_str_int n @ [newline]]
            \<and> send_reward_buffer entry s = Inr s3
            \<and> ser s3 = ser s @ [''Q'' @ py_str_int n @ [newline]]"
    using n one assms(1)
    by (simp add: send_wrappers send_value_cases [OF py_float_of_int_1])
  have scaled: "\<exists>k s4 s5. py_int_of_float (py_fmul v (Finite 1000)) = Inr k
               \<and> send_fix_duration entry s = Inr s4
               \<and> ser s4 = ser s @ [''X'' @ py_str_int k @ [newline]]
               \<and> send_fix_delay entry s = Inr s5
               \<and> ser s5 = ser s @ [''Y'' @ py_str_int k @ [newline]]"
    if "is_finite (py_fmul v (Finite 1000))"
  proof -
    from py_int_of_float_finite [OF that] obtain k
      where "py_int_of_float (py_fmul v (Finite 1000)) = Inr k" ..
    then show ?thesis
      using assms(1) by (simp add: send_wrappers send_value_cases [OF py_float_of_int_1000])
  qed
  from unscaled scaled show ?thesis
    by blast
qed

text \<open>
  The text "7": the threshold is written as "T7" and the duration as "X7000".
\<close>

theorem parameter_command_written_witness:
  "py_float ''7'' = Inr (Finite 7) \<and> is_finite (Finite 7)
   \<and> is_finite (py_fmul (Finite 7) (Finite 1000))
   \<and> map_sum id ser (send_threshold ''7'' init_gui) = Inr [''T7'' @ [newline]]
   \<and> map_sum id ser (send_fix_duration ''7'' init_gui) = Inr [''X7000'' @ [newline]]"
proof -
  have p: "py_float ''7'' = Inr (Finite 7)"
    by code_simp
  have f: "is_finite (Finite 7)"
    by simp
  have m: "py_fmul (Finite 7) (Finite 1000) = Finite 7000"
    by code_simp
  have i: "py_str_int 7 = ''7''" "py_str_int 7000 = ''7000''"
    by code_simp+
  have s: "ser init_gui = []"
    by (simp add: init_gui_def)
  from parameter_command_written [OF p f, of init_gui] p f m i s show ?thesis
    by auto
qed

lemma truncation_of_float:
  "py_int_of_float x = Inr n \<Longrightarrow> truncates_toward_zero n (fval x)"
proof (cases x)
  case (Finite q)
  assume "py_int_of_float x = Inr n"
  with Finite have n: "n = (if 0 \<le> q then \<lfloor>q\<rfloor> else \<lceil>q\<rceil>)"
    by simp
  show ?thesis
  proof (cases "0 \<le> q")
    case True
    then have "0 \<le> \<lfloor>q\<rfloor>"
      by simp
    with True n Finite floor_correct [of q] show ?thesis
      by (simp add: truncates_toward_zero_def)
  next
    case False
    then have "\<lceil>q\<rceil> \<le> 0"
      by (simp add: ceiling_le_iff)
    then have "(of_int \<lceil>q\<rceil> :: rat) \<le> 0"
      by simp
    with False n Finite ceiling_correct [of q] show ?thesis
      by (simp add: truncates_toward_zero_def mult_nonpos_nonpos)
  qed
qed (simp_all add: truncates_toward_zero_def)

text \<open>
  Claim C9.  Whenever \<^verbatim>\<open>send_value\<close> writes, what it writes is the command, the integer
  \<^verbatim>\<open>int(val * multiplier)\<close> and a newline, where the integer is the floating-point
  product truncated toward zero.  The text "350.7" is sent as "T350" and the duration
  "1.0015" as "X1001".
\<close>

theorem payload_is_truncated:
  "(ser (unless_raised s (send_value entry command label multiplier s)) \<noteq> ser s \<longrightarrow>
      (\<exists>v m n. py_float entry = Inr v \<and> py_float_of_int multiplier = Inr m
         \<and> is_finite (py_fmul v m)
         \<and> py_int_of_float (py_fmul v m) = Inr n
         \<and> truncates_toward_zero n (fval (py_fmul v m))
         \<and> ser (unless_raised s (send_value entry command label multiplier s))
             = ser s @ [command @ py_str_int n @ [newline]]))
   \<and> map_sum id ser (send_threshold ''350.7'' init_gui) = Inr [''T350'' @ [newline]]
   \<and> map_sum id ser (send_fix_duration ''1.0015'' init_gui) = Inr [''X1001'' @ [newline]]"
proof -
  have general: "\<exists>v m n. py_float entry = Inr v \<and> py_float_of_int multiplier = Inr m
         \<and> is_finite (py_fmul v m)
         \<and> py_int_of_float (py_fmul v m) = Inr n
         \<and> truncates_toward_zero n (fval (py_fmul v m))
         \<and> ser (unless_raised s (send_value entry command label multiplier s))
             = ser s @ [command @ py_str_int n @ [newline]]"
    if w: "ser (unless_raised s (send_value entry command label multiplier s)) \<noteq> ser s"
  proof -
    from w obtain v where v: "py_float entry = Inr v"
      by (cases "py_float entry")
        (auto simp: send_value_def send_value_try_def exc_bind_def unless_raised_def
          split: sum.splits pyerror.splits)
    from w v obtain m where m: "py_float_of_int multiplier = Inr m"
      by (cases "py_float_of_int multiplier")
        (auto simp: send_value_def send_value_try_def exc_bind_def unless_raised_def
          py_fmul_int_def split: sum.splits pyerror.splits)
    from w v obtain n where n: "py_int_of_float (py_fmul v m) = Inr n"
      by (cases "py_int_of_float (py_fmul v m)")
        (auto simp: send_value_cases [OF m] unless_raised_def split: sum.splits if_splits)
    from n have "is_finite (py_fmul v m)"
      by (rule py_int_of_float_Inr)
    moreover from n have "truncates_toward_zero n (fval (py_fmul v m))"
      by (rule truncation_of_float)
    moreover have "ser (unless_raised s (send_value entry command label multiplier s))
             = ser s @ [command @ py_str_int n @ [newline]]"
      using v n by (simp add: send_value_cases [OF m] unless_raised_def)
    ultimately show ?thesis
      using v m n by blast
  qed
  have ex1: "map_sum id ser (send_threshold ''350.7'' init_gui) = Inr [''T350'' @ [newline]]"
    by code_simp
  have ex2: "map_sum id ser (send_fix_duration ''1.0015'' init_gui) = Inr [''X1001'' @ [newline]]"
    by code_simp
  from general ex1 ex2 show ?thesis
    by blast
qed

text \<open>
  The duration "1.001": the product with 1000 is the float just below 1001, and "X1000"
  is written.
\<close>

theorem payload_is_truncated_witness:
  "ser (unless_raised init_gui (send_value ''1.001'' ''X'' ''Fix Duration'' 1000 init_gui))
     \<noteq> ser init_gui
   \<and> py_float ''1.001'' = Inr (Finite (2254051613498933 / 2251799813685248))
   \<and> py_fmul (Finite (2254051613498933 / 2251799813685248)) (Finite 1000)
       = Finite (8804889115230207 / 8796093022208)
   \<and> truncates_toward_zero 1000 (8804889115230207 / 8796093022208)
   \<and> ser (unless_raised init_gui (send_value ''1.001'' ''X'' ''Fix Duration'' 1000 init_gui))
       = [''X1000'' @ [newline]]"
proof -
  let ?s' = "unless_raised init_gui (send_value ''1.001'' ''X'' ''Fix Duration'' 1000 init_gui)"
  have w: "ser ?s' \<noteq> ser init_gui"
    by code_simp
  have p: "py_float ''1.001'' = Inr (Finite (2254051613498933 / 2251799813685248))"
    by code_simp
  have c: "py_float_of_int 1000 = Inr (Finite 1000)"
    by (rule py_float_of_int_1000)
  have x: "py_fmul (Finite (2254051613498933 / 2251799813685248)) (Finite 1000)
       = Finite (8804889115230207 / 8796093022208)"
    by code_simp
  have i: "py_int_of_float (Finite (8804889115230207 / 8796093022208)) = Inr 1000"
    by code_simp
  have t: "py_str_int 1000 = ''1000''"
    by code_simp
  have s: "ser init_gui = []"
    by (simp add: init_gui_def)
  from payload_is_truncated [of init_gui "''1.001''" "''X''" "''Fix Duration''" 1000] w
  obtain v m n where h: "py_float ''1.001'' = Inr v" "py_float_of_int 1000 = Inr m"
    "py_int_of_float (py_fmul v m) = Inr n" "truncates_toward_zero n (fval (py_fmul v m))"
    "ser ?s' = ser init_gui @ [''X'' @ py_str_int n @ [newline]]"
    by blast
  from h(1) p have v: "v = Finite (2254051613498933 / 2251799813685248)"
    by simp
  from h(2) c have m: "m = Finite 1000"
    by simp
  from h(3) i have n: "n = 1000"
    by (simp add: v m x)
  from h(4,5) show ?thesis
    using w p x by (simp add: v m n x t s)
qed

text \<open>
  The claim C3 as stated fails for a negative number: the text "-1" is a number below
  zero, and the command "T-1" is written.
\<close>

theorem negative_threshold_is_sent:
  "py_float ''-1'' = Inr (Finite (- 1))
   \<and> map_sum id ser (send_threshold ''-1'' init_gui) = Inr [''T-1'' @ [newline]]"
  by code_simp

text \<open>
  The texts "abc", "inf" and "-2.5" in the field of the struggle threshold.
\<close>

theorem invalid_parameter_not_sent_witness:
  "((1::int) = 1 \<or> (1::int) = 1000)
   \<and> py_float ''abc'' = Inl ValueError
   \<and> send_threshold ''abc'' init_gui
       = Inr (add_console_log ''Invalid input for Struggle Threshold'' init_gui)
   \<and> ser (unless_raised init_gui (send_threshold ''abc'' init_gui)) = []
   \<and> py_float ''inf'' = Inr PosInf
   \<and> send_threshold ''inf'' init_gui = Inl OverflowError
   \<and> py_float ''-2.5'' = Inr (Finite (- (5 / 2)))
   \<and> map_sum id ser (send_threshold ''-2.5'' init_gui) = Inr [''T-2'' @ [newline]]"
proof -
  have m: "(1::int) = 1 \<or> (1::int) = 1000"
    by simp
  have a: "py_float ''abc'' = Inl ValueError"
    by code_simp
  have b: "py_float ''inf'' = Inr PosInf"
    by code_simp
  have c: "py_float ''-2.5'' = Inr (Finite (- (5 / 2)))"
    by code_simp
  have d: "\<lceil>- (5 / 2) :: rat\<rceil> = - 2" "py_str_int (- 2) = ''-2''"
    by code_simp+
  have s: "ser init_gui = []"
    by (simp add: init_gui_def)
  have nf: "\<forall>v. py_float ''abc'' = Inr v \<longrightarrow> \<not> is_finite v"
    by (simp add: a)
  note t = invalid_parameter_not_sent [OF m, of _ "''T''" "''Struggle Threshold''" init_gui]
  from t [of "''abc''"] a nf
  have 1: "send_threshold ''abc'' init_gui
       = Inr (add_console_log ''Invalid input for Struggle Threshold'' init_gui)"
    "ser (unless_raised init_gui (send_threshold ''abc'' init_gui)) = []"
    by (simp_all add: send_wrappers s unless_raised_def)
  from t [of "''inf''"] b have 2: "send_threshold ''inf'' init_gui = Inl OverflowError"
    by (simp add: send_wrappers)
  from t [of "''-2.5''"] c d
  have 3: "map_sum id ser (send_threshold ''-2.5'' init_gui) = Inr [''T-2'' @ [newline]]"
    by (auto simp: send_wrappers s)
  from m a b c 1 2 3 show ?thesis
    by simp
qed

lemma float_number_1e306: "float_number ''1e306'' = Some (pow10 306)"
  by (simp add: float_number_def float_mantissa_def float_exponent_def digitpart_def
      is_digit_def digit_val_def is_exp_char_def split_sign_def)

lemma fl_1e306: "fl (pow10 306) = Finite (6413338752028713 * 2 ^ 964)"
proof -
  have "fl (pow10 306) = Finite (of_int 6413338752028713 * pow2 (1016 - 52))"
    by (rule fl_normal)
      (simp_all add: pow10_def pow2_def round_half_even_def Let_def floor_rat_numeral)
  then show ?thesis
    by (simp add: pow2_def)
qed

lemma py_float_1e306: "py_float ''1e306'' = Inr (Finite (6413338752028713 * 2 ^ 964))"
proof -
  have "split_sign (strip_with is_num_space ''1e306'') = (False, ''1e306'')"
    "map lower ''1e306'' = ''1e306''"
    by code_simp+
  moreover have "pow10 306 \<noteq> 0"
    using pow10_pos [of 306] by linarith
  ultimately show ?thesis
    by (simp add: py_float_def float_number_1e306 fl_1e306)
qed

text \<open>
  The claim C7 as stated fails when the product overflows: "1e306" reads as a finite
  number that is not negative, its product with 1000 is infinite, and
  \<^verbatim>\<open>send_fix_duration\<close> raises \<^verbatim>\<open>OverflowError\<close> without writing.
\<close>

theorem overflowing_duration_is_not_sent:
  "py_float ''1e306'' = Inr (Finite (6413338752028713 * 2 ^ 964))
   \<and> send_fix_duration ''1e306'' init_gui = Inl OverflowError"
proof -
  have "pow2 1024 \<le> 6413338752028713 * 2 ^ 964 * 1000"
    by (simp add: pow2_def)
  then have "fl (6413338752028713 * 2 ^ 964 * 1000) = PosInf"
    by (rule fl_overflow)
  then have "py_fmul (Finite (6413338752028713 * 2 ^ 964)) (Finite 1000) = PosInf"
    by (simp add: py_fmul_def)
  then show ?thesis
    by (simp add: send_wrappers send_value_cases [OF py_float_of_int_1000] py_float_1e306)
qed

lemma no_numeral_char_facts:
  assumes "no_numeral_char c"
  shows "\<not> is_digit c" "c \<noteq> CHR ''_''" "\<not> is_num_space c" "c \<noteq> CHR ''+''" "c \<noteq> CHR ''-''"
    "c \<noteq> CHR ''.''" "\<not> is_exp_char c" "lower c = c" "c \<notin> set ''infinity''" "c \<notin> set ''nan''"
    "c \<notin> set ''EVENT''" "c \<noteq> CHR '',''"
  using assms
  by (auto simp: no_numeral_char_def is_digit_def is_num_space_def is_exp_char_def lower_def)

lemma digits_from_chars:
  "digits_from v n cs = Some r \<Longrightarrow> c \<in> set cs \<Longrightarrow> is_digit c \<or> c = CHR ''_''"
  by (induction v n cs rule: digits_from.induct) (auto split: if_splits)

lemma digitpart_chars:
  "digitpart s = Some r \<Longrightarrow> c \<in> set s \<Longrightarrow> is_digit c \<or> c = CHR ''_''"
  by (auto simp: digitpart_def split: list.splits if_splits dest: digits_from_chars)

lemma digitpart_no_numeral_char:
  "digitpart s = Some r \<Longrightarrow> c \<in> set s \<Longrightarrow> \<not> no_numeral_char c"
  using digitpart_chars [of s r c] no_numeral_char_facts(1,2) [of c] by blast

lemma set_dropWhile_keep: "c \<in> set xs \<Longrightarrow> \<not> f c \<Longrightarrow> c \<in> set (dropWhile f xs)"
  by (induction xs) auto

lemma strip_with_keep: "c \<in> set s \<Longrightarrow> \<not> f c \<Longrightarrow> c \<in> set (strip_with f s)"
  by (simp add: strip_with_def set_dropWhile_keep)

lemma split_sign_keep:
  "split_sign t = (neg, body) \<Longrightarrow> c \<in> set t \<Longrightarrow> c \<noteq> CHR ''+'' \<Longrightarrow> c \<noteq> CHR ''-'' \<Longrightarrow>
   c \<in> set body"
  by (auto simp: split_sign_def split: list.splits if_splits)

lemma py_int_chars:
  assumes "py_int s = Inr n" and "c \<in> set s"
  shows "\<not> no_numeral_char c"
proof
  assume c: "no_numeral_char c"
  obtain neg body where sb: "split_sign (strip_with is_num_space s) = (neg, body)"
    by (cases "split_sign (strip_with is_num_space s)")
  from assms(2) c have "c \<in> set body"
    by (intro split_sign_keep [OF sb] strip_with_keep no_numeral_char_facts)
  moreover from assms(1) sb obtain r where "digitpart body = Some r"
    by (auto simp: py_int_def split: option.splits)
  ultimately show False
    using c digitpart_no_numeral_char by blast
qed

lemma set_takeWhile_dropWhile:
  "c \<in> set xs \<Longrightarrow> c \<in> set (takeWhile f xs) \<or> c \<in> set (dropWhile f xs)"
  using takeWhile_dropWhile_id [of f xs] by (metis Un_iff set_append)

lemma float_mantissa_chars:
  assumes "float_mantissa m = Some q" and "c \<in> set m"
  shows "\<not> no_numeral_char c"
proof
  assume c: "no_numeral_char c"
  define ip where "ip = takeWhile (\<lambda>c. c \<noteq> CHR ''.'') m"
  define rest where "rest = dropWhile (\<lambda>c. c \<noteq> CHR ''.'') m"
  from assms(2) have "c \<in> set ip \<or> c \<in> set rest"
    unfolding ip_def rest_def by (rule set_takeWhile_dropWhile)
  then show False
  proof
    assume i: "c \<in> set ip"
    then have "ip \<noteq> []"
      by auto
    with assms(1) obtain r where "digitpart ip = Some r"
      by (auto simp: float_mantissa_def ip_def rest_def Let_def
          split: list.splits if_splits option.splits)
    with i c show False
      using digitpart_no_numeral_char by blast
  next
    assume "c \<in> set rest"
    then obtain dot fp where r: "rest = dot # fp" and "c = dot \<or> c \<in> set fp"
      by (cases rest) auto
    moreover have "dot = CHR ''.''"
      using r hd_dropWhile [of "\<lambda>c. c \<noteq> CHR ''.''" m] by (simp add: rest_def)
    ultimately have f: "c \<in> set fp"
      using no_numeral_char_facts(6) [OF c] by auto
    then have "fp \<noteq> []"
      by auto
    with assms(1) r obtain x where "digitpart fp = Some x"
      by (auto simp: float_mantissa_def ip_def rest_def Let_def
          split: list.splits if_splits option.splits)
    with f c show False
      using digitpart_no_numeral_char by blast
  qed
qed

lemma float_exponent_chars:
  assumes "float_exponent x = Some k" and "c \<in> set x"
  shows "\<not> no_numeral_char c"
proof
  assume c: "no_numeral_char c"
  obtain neg body where sb: "split_sign x = (neg, body)"
    by (cases "split_sign x")
  from assms(2) c have "c \<in> set body"
    by (intro split_sign_keep [OF sb] no_numeral_char_facts)
  moreover from assms(1) sb obtain r where "digitpart body = Some r"
    by (auto simp: float_exponent_def)
  ultimately show False
    using c digitpart_no_numeral_char by blast
qed

lemma float_number_chars:
  assumes "float_number body = Some q" and "c \<in> set body"
  shows "\<not> no_numeral_char c"
proof
  assume c: "no_numeral_char c"
  define m where "m = takeWhile (\<lambda>c. \<not> is_exp_char c) body"
  define rest where "rest = dropWhile (\<lambda>c. \<not> is_exp_char c) body"
  from assms(2) have "c \<in> set m \<or> c \<in> set rest"
    unfolding m_def rest_def by (rule set_takeWhile_dropWhile)
  then show False
  proof
    assume i: "c \<in> set m"
    from assms(1) obtain r where "float_mantissa m = Some r"
      by (auto simp: float_number_def m_def rest_def Let_def split: list.splits option.splits)
    with i c show False
      using float_mantissa_chars by blast
  next
    assume "c \<in> set rest"
    then obtain e x where r: "rest = e # x" and "c = e \<or> c \<in> set x"
      by (cases rest) auto
    moreover have "is_exp_char e"
      using r hd_dropWhile [of "\<lambda>c. \<not> is_exp_char c" body] by (simp add: rest_def)
    ultimately have f: "c \<in> set x"
      using no_numeral_char_facts(7) [OF c] by auto
    from assms(1) r obtain k where "float_exponent x = Some k"
      by (auto simp: float_number_def m_def rest_def Let_def split: list.splits option.splits)
    with f c show False
      using float_exponent_chars by blast
  qed
qed

lemma py_float_chars:
  assumes "py_float s = Inr v" and "c \<in> set s"
  shows "\<not> no_numeral_char c"
proof
  assume c: "no_numeral_char c"
  obtain neg body where sb: "split_sign (strip_with is_num_space s) = (neg, body)"
    by (cases "split_sign (strip_with is_num_space s)")
  from assms(2) c have b: "c \<in> set body"
    by (intro split_sign_keep [OF sb] strip_with_keep no_numeral_char_facts)
  then have "lower c \<in> set (map lower body)"
    by simp
  then have l: "c \<in> set (map lower body)"
    by (simp add: no_numeral_char_facts(8) [OF c])
  have "map lower body \<noteq> ''inf''" "map lower body \<noteq> ''infinity''" "map lower body \<noteq> ''nan''"
    using l no_numeral_char_facts(9,10) [OF c] by auto
  with assms(1) sb obtain q where "float_number body = Some q"
    by (auto simp: py_float_def Let_def split: option.splits if_splits)
  with b c show False
    using float_number_chars by blast
qed

lemma startswith_set: "startswith s p \<Longrightarrow> set p \<subseteq> set s"
  by (induction s p rule: startswith.induct) auto

lemma py_in_set: "py_in p s \<Longrightarrow> set p \<subseteq> set s"
proof (induction s)
  case Nil
  then show ?case by simp
next
  case (Cons a s)
  from Cons.prems have "startswith (a # s) p \<or> py_in p s"
    by simp
  then show ?case
  proof
    assume "startswith (a # s) p"
    then show ?thesis by (rule startswith_set)
  next
    assume "py_in p s"
    then have "set p \<subseteq> set s" by (rule Cons.IH)
    then show ?thesis by auto
  qed
qed

lemma startswith_append: "startswith s p \<Longrightarrow> s = p @ drop (length p) s"
  by (induction s p rule: startswith.induct) auto

lemma py_split_part:
  "c \<in> set s \<Longrightarrow> c \<noteq> sep \<Longrightarrow> \<exists>part \<in> set (py_split sep s). c \<in> set part"
  by (induction s) (auto split: list.splits)

lemma py_split_EVENT:
  assumes "startswith line ''EVENT,''"
  shows "\<exists>rest. py_split (CHR '','') line = ''EVENT'' # rest"
proof -
  define r where "r = drop (length ''EVENT,'') line"
  have "line = ''EVENT,'' @ r"
    unfolding r_def using assms by (rule startswith_append)
  then have "py_split (CHR '','') line = py_split (CHR '','') (''EVENT,'' @ r)"
    by (rule arg_cong)
  also have "\<dots> = ''EVENT'' # py_split (CHR '','') r"
    by simp
  finally show ?thesis ..
qed

lemma parse_event_Inr:
  assumes "parse_event parts = Inr ev"
  shows "6 < length parts" and "py_float (parts ! 1) = Inr (ev_duration ev)"
    and "py_int (parts ! 2) = Inr (ev_fix ev)" and "py_int (parts ! 3) = Inr (ev_escape ev)"
    and "py_int (parts ! 4) = Inr (ev_timeup ev)" and "py_int (parts ! 5) = Inr (ev_struggle ev)"
    and "py_int (parts ! 6) = Inr (ev_reward ev)"
  using assms
  by (auto simp: parse_event_def exc_bind_def py_index_def split: sum.splits if_splits)

lemma less_7_cases: "i < 7 \<Longrightarrow> i = 0 \<or> i = 1 \<or> i = 2 \<or> i = 3 \<or> i = 4 \<or> i = 5 \<or> i = (6::nat)"
  by arith

lemma valid_event_chars:
  assumes sw: "startswith line ''EVENT,''"
    and len: "length (py_split (CHR '','') line) = 7"
    and pe: "parse_event (py_split (CHR '','') line) = Inr ev"
    and c: "no_numeral_char c"
  shows "c \<notin> set line"
proof
  let ?parts = "py_split (CHR '','') line"
  assume "c \<in> set line"
  with no_numeral_char_facts(12) [OF c]
  obtain part where part: "part \<in> set ?parts" "c \<in> set part"
    using py_split_part by blast
  from part(1) len obtain i where i: "i < 7" "part = ?parts ! i"
    by (auto simp: in_set_conv_nth)
  from py_split_EVENT [OF sw] have p0: "?parts ! 0 = ''EVENT''"
    by auto
  note ok = parse_event_Inr [OF pe]
  from less_7_cases [OF i(1)] show False
  proof (elim disjE)
    assume "i = 0"
    with i p0 part(2) no_numeral_char_facts(11) [OF c] show False
      by simp
  next
    assume "i = 1"
    with i part(2) ok(2) c show False
      using py_float_chars by blast
  next
    assume "i = 2"
    with i part(2) ok(3) c show False
      using py_int_chars by blast
  next
    assume "i = 3"
    with i part(2) ok(4) c show False
      using py_int_chars by blast
  next
    assume "i = 4"
    with i part(2) ok(5) c show False
      using py_int_chars by blast
  next
    assume "i = 5"
    with i part(2) ok(6) c show False
      using py_int_chars by blast
  next
    assume "i = 6"
    with i part(2) ok(7) c show False
      using py_int_chars by blast
  qed
qed

lemma status_phrase_letters: "\<forall>p \<in> set status_phrases. \<exists>c \<in> set p. no_numeral_char c"
  by code_simp

lemma status_phrase_letter: "p \<in> set status_phrases \<Longrightarrow> \<exists>c \<in> set p. no_numeral_char c"
  using status_phrase_letters by blast

lemma valid_event_no_phrase:
  assumes "startswith line ''EVENT,''"
    and "length (py_split (CHR '','') line) = 7"
    and "parse_event (py_split (CHR '','') line) = Inr ev"
    and "p \<in> set status_phrases"
  shows "\<not> py_in p line"
  using status_phrase_letter [OF assms(4)] valid_event_chars [OF assms(1,2,3)]
    py_in_set [of p line]
  by blast

lemma status_lines_no_phrase:
  "\<forall>p \<in> set status_phrases. \<not> py_in p line \<Longrightarrow> status_lines line s = s"
  by (simp add: status_phrases_def status_lines_def fixation_lines_def struggle_lines_def
      reward_lines_def)

lemma update_serial_turn_cases:
  "update_serial_turn raw s =
     (let line = py_strip raw; parts = py_split (CHR '','') line
      in if line = [] then s
         else if startswith line ''EVENT,'' \<and> length parts = 7
           then (case parse_event parts of
                   Inl e \<Rightarrow> s
                 | Inr ev \<Rightarrow> status_lines line (update_table ev s))
           else status_lines line s)"
  by (simp add: update_serial_turn_def event_lines_def exc_bind_def Let_def
      split: sum.splits)

lemma valid_event_turn:
  assumes "py_strip raw \<noteq> []" and "startswith (py_strip raw) ''EVENT,''"
    and "length (py_split (CHR '','') (py_strip raw)) = 7"
    and "parse_event (py_split (CHR '','') (py_strip raw)) = Inr ev"
  shows "update_serial_turn raw s = update_table ev s"
proof -
  have "status_lines (py_strip raw) (update_table ev s) = update_table ev s"
    using valid_event_no_phrase [OF assms(2,3,4)] by (intro status_lines_no_phrase) blast
  then show ?thesis
    using assms by (simp add: update_serial_turn_cases)
qed

lemma parse_event_ok:
  assumes "length parts = 7"
    and "py_float (parts ! 1) = Inr d" and "py_int (parts ! 2) = Inr a"
    and "py_int (parts ! 3) = Inr b" and "py_int (parts ! 4) = Inr c"
    and "py_int (parts ! 5) = Inr e" and "py_int (parts ! 6) = Inr f"
  shows "parse_event parts =
     Inr \<lparr>ev_duration = d, ev_fix = a, ev_escape = b, ev_timeup = c, ev_struggle = e,
          ev_reward = f\<rparr>"
  using assms by (simp add: parse_event_def py_index_def exc_bind_def)

lemma parse_event_fail:
  assumes "length parts = 7"
    and "isl (py_float (parts ! 1)) \<or> isl (py_int (parts ! 2)) \<or> isl (py_int (parts ! 3))
      \<or> isl (py_int (parts ! 4)) \<or> isl (py_int (parts ! 5)) \<or> isl (py_int (parts ! 6))"
  shows "isl (parse_event parts)"
  using assms
  by (auto simp: parse_event_def py_index_def exc_bind_def isl_def split: sum.splits)

lemma status_lines_tables [simp]:
  "totals (status_lines line s) = totals s"
  "last_row (status_lines line s) = last_row s"
  "totals_row (status_lines line s) = totals_row s"
  by (simp_all add: status_lines_def fixation_lines_def struggle_lines_def reward_lines_def)

lemma status_lines_labels:
  "fixation_label (status_lines line s) =
     (if py_in ''Fixation Engaged'' line then (''Fixation: ACTIVE'', ''green'')
      else if py_in ''Fixation Released'' line then (''Fixation: INACTIVE'', ''red'')
      else if py_in ''Escape Event'' line then (''Fixation: ESCAPE'', ''yellow'')
      else if py_in ''Time-Up Release'' line then (''Fixation: TIME UP'', ''purple'')
      else fixation_label s)"
  "struggle_label (status_lines line s) =
     (if py_in ''Struggle YES'' line then (''Struggle: YES'', ''red'')
      else if py_in ''Struggle NO'' line then (''Struggle: NO'', ''gray'')
      else struggle_label s)"
  by (simp_all add: status_lines_def fixation_lines_def struggle_lines_def reward_lines_def)

lemma update_table_labels [simp]:
  "fixation_label (update_table ev s) = fixation_label s"
  "struggle_label (update_table ev s) = struggle_label s"
  by (simp_all add: update_table_def Let_def)

text \<open>
  Claim C5, as the code has it.  For a line that, stripped, is not empty and starts with
  "EVENT,": when it splits at the commas into seven fields, of which field 1 is read by
  \<^verbatim>\<open>float()\<close> and fields 2 to 6 by \<^verbatim>\<open>int()\<close>, the turn of the loop is
  \<^verbatim>\<open>update_table\<close> on these six values.  When the number of fields is not seven, no
  trial is applied: the totals and both rows of the table stay as they are, and the
  line goes on to the search for the phrases of the device, like any other line.  When
  the number is seven and a conversion raises, the turn leaves the whole state as it
  was.
\<close>

theorem event_line_decoding:
  assumes "py_strip raw \<noteq> []" and "startswith (py_strip raw) ''EVENT,''"
  shows "(let parts = py_split (CHR '','') (py_strip raw)
          in (length parts = 7 \<and> py_float (parts ! 1) = Inr d \<and> py_int (parts ! 2) = Inr a
                \<and> py_int (parts ! 3) = Inr b \<and> py_int (parts ! 4) = Inr c
                \<and> py_int (parts ! 5) = Inr e \<and> py_int (parts ! 6) = Inr f \<longrightarrow>
              update_serial_turn raw s =
                update_table
                  \<lparr>ev_duration = d, ev_fix = a, ev_escape = b, ev_timeup = c, ev_struggle = e,
                   ev_reward = f\<rparr> s)
           \<and> (length parts \<noteq> 7 \<longrightarrow>
                update_serial_turn raw s = status_lines (py_strip raw) s
              \<and> totals (update_serial_turn raw s) = totals s
              \<and> last_row (update_serial_turn raw s) = last_row s
              \<and> totals_row (update_serial_turn raw s) = totals_row s)
           \<and> (length parts = 7
                \<and> (isl (py_float (parts ! 1)) \<or> isl (py_int (parts ! 2))
                   \<or> isl (py_int (parts ! 3)) \<or> isl (py_int (parts ! 4))
                   \<or> isl (py_int (parts ! 5)) \<or> isl (py_int (parts ! 6))) \<longrightarrow>
                update_serial_turn raw s = s))"
proof -
  let ?parts = "py_split (CHR '','') (py_strip raw)"
  have valid: "update_serial_turn raw s =
      update_table
        \<lparr>ev_duration = d, ev_fix = a, ev_escape = b, ev_timeup = c, ev_struggle = e,
         ev_reward = f\<rparr> s"
    if "length ?parts = 7" "py_float (?parts ! 1) = Inr d" "py_int (?parts ! 2) = Inr a"
      "py_int (?parts ! 3) = Inr b" "py_int (?parts ! 4) = Inr c"
      "py_int (?parts ! 5) = Inr e" "py_int (?parts ! 6) = Inr f"
    using assms that(1) parse_event_ok [OF that] by (rule valid_event_turn)
  have count: "update_serial_turn raw s = status_lines (py_strip raw) s"
    if "length ?parts \<noteq> 7"
    using assms that by (simp add: update_serial_turn_cases)
  have bad: "update_serial_turn raw s = s"
    if "length ?parts = 7"
      "isl (py_float (?parts ! 1)) \<or> isl (py_int (?parts ! 2)) \<or> isl (py_int (?parts ! 3))
        \<or> isl (py_int (?parts ! 4)) \<or> isl (py_int (?parts ! 5)) \<or> isl (py_int (?parts ! 6))"
  proof -
    from parse_event_fail [OF that] obtain x where "parse_event ?parts = Inl x"
      by (auto simp: isl_def)
    with assms that(1) show ?thesis
      by (simp add: update_serial_turn_cases)
  qed
  from valid count bad show ?thesis
    by (simp add: Let_def)
qed

text \<open>
  Claim C6, as the code has it.  For every line that, stripped, is not empty, except a
  line that starts with "EVENT,", has seven fields and a conversion that raises: the
  fixation label is set by the first phrase of the fixation group that the line
  contains (and kept when it contains none), and the struggle label by the first
  phrase of the struggle group, each whatever the other group finds.
\<close>

theorem status_groups_independent:
  assumes "py_strip raw \<noteq> []"
    and "\<not> (startswith (py_strip raw) ''EVENT,''
           \<and> length (py_split (CHR '','') (py_strip raw)) = 7
           \<and> isl (parse_event (py_split (CHR '','') (py_strip raw))))"
  shows "fixation_label (update_serial_turn raw s) =
           (if py_in ''Fixation Engaged'' (py_strip raw) then (''Fixation: ACTIVE'', ''green'')
            else if py_in ''Fixation Released'' (py_strip raw)
              then (''Fixation: INACTIVE'', ''red'')
            else if py_in ''Escape Event'' (py_strip raw) then (''Fixation: ESCAPE'', ''yellow'')
            else if py_in ''Time-Up Release'' (py_strip raw)
              then (''Fixation: TIME UP'', ''purple'')
            else fixation_label s)
       \<and> struggle_label (update_serial_turn raw s) =
           (if py_in ''Struggle YES'' (py_strip raw) then (''Struggle: YES'', ''red'')
            else if py_in ''Struggle NO'' (py_strip raw) then (''Struggle: NO'', ''gray'')
            else struggle_label s)"
proof (cases "startswith (py_strip raw) ''EVENT,''
    \<and> length (py_split (CHR '','') (py_strip raw)) = 7")
  case True
  with assms(2) obtain ev where "parse_event (py_split (CHR '','') (py_strip raw)) = Inr ev"
    by (cases "parse_event (py_split (CHR '','') (py_strip raw))") auto
  with True assms(1) have "update_serial_turn raw s = status_lines (py_strip raw) (update_table ev s)"
    by (simp add: update_serial_turn_cases)
  then show ?thesis
    by (simp add: status_lines_labels)
next
  case False
  with assms(1) have "update_serial_turn raw s = status_lines (py_strip raw) s"
    by (auto simp: update_serial_turn_cases Let_def)
  then show ?thesis
    by (simp add: status_lines_labels)
qed

text \<open>
  Claim C10, as the code has it.  For a line that, stripped, is not empty and starts
  with "EVENT,": when the number of fields is not seven, the search for the phrases is
  applied to the line, and a line that contains "Reward Given" logs it.  When the line
  has seven fields that all convert, the search is applied to the same line after
  \<^verbatim>\<open>update_table\<close>, and the line contains none of the seven phrases.  When it has
  seven fields and a conversion raises, the search is not reached and the state stays
  as it was.
\<close>

theorem status_matching_after_event_parsing:
  assumes "py_strip raw \<noteq> []" and "startswith (py_strip raw) ''EVENT,''"
  shows "(let line = py_strip raw; parts = py_split (CHR '','') line
          in (length parts \<noteq> 7 \<longrightarrow>
                update_serial_turn raw s = status_lines line s
              \<and> (py_in ''Reward Given'' line \<longrightarrow>
                   console_box (update_serial_turn raw s) =
                     console_box (struggle_lines line (fixation_lines line s))
                       @ [''Reward Given'']))
           \<and> (length parts = 7 \<and> parse_event parts = Inr ev \<longrightarrow>
                update_serial_turn raw s = status_lines line (update_table ev s)
              \<and> (\<forall>p \<in> set status_phrases. \<not> py_in p line))
           \<and> (length parts = 7 \<and> isl (parse_event parts) \<longrightarrow>
                update_serial_turn raw s = s))"
proof -
  let ?line = "py_strip raw"
  let ?parts = "py_split (CHR '','') ?line"
  have count: "update_serial_turn raw s = status_lines ?line s" if "length ?parts \<noteq> 7"
    using assms that by (simp add: update_serial_turn_cases)
  have reward: "console_box (status_lines ?line s) =
      console_box (struggle_lines ?line (fixation_lines ?line s)) @ [''Reward Given'']"
    if "py_in ''Reward Given'' ?line"
    using that by (simp add: status_lines_def reward_lines_def)
  have valid: "update_serial_turn raw s = status_lines ?line (update_table ev s)"
    if "length ?parts = 7" "parse_event ?parts = Inr ev"
    using assms that by (simp add: update_serial_turn_cases)
  have none: "\<forall>p \<in> set status_phrases. \<not> py_in p ?line"
    if "length ?parts = 7" "parse_event ?parts = Inr ev"
    using valid_event_no_phrase [OF assms(2) that] by blast
  have bad: "update_serial_turn raw s = s" if "length ?parts = 7" "isl (parse_event ?parts)"
  proof -
    from that(2) obtain x where "parse_event ?parts = Inl x"
      by (auto simp: isl_def)
    with assms that(1) show ?thesis
      by (simp add: update_serial_turn_cases)
  qed
  from count reward valid none bad show ?thesis
    unfolding Let_def by metis
qed

lemma event_line_facts:
  "py_strip ''EVENT,12.5,1,0,0,0,1'' = ''EVENT,12.5,1,0,0,0,1''"
  "startswith ''EVENT,12.5,1,0,0,0,1'' ''EVENT,''"
  "py_split (CHR '','') ''EVENT,12.5,1,0,0,0,1'' = [''EVENT'', ''12.5'', ''1'', ''0'', ''0'', ''0'', ''1'']"
  "py_float ''12.5'' = Inr (Finite (25 / 2))"
  "py_int ''1'' = Inr 1"
  "py_int ''0'' = Inr 0"
  by code_simp+

text \<open>
  The line "EVENT,12.5,1,0,0,0,1" is applied as the trial (12.5, 1, 0, 0, 0, 1); the
  line "EVENT,1,2" changes no total; the line "EVENT,12.5,1,0,0,0,x" changes nothing.
\<close>

theorem event_line_decoding_witness:
  "py_strip ''EVENT,12.5,1,0,0,0,1'' \<noteq> []
   \<and> startswith (py_strip ''EVENT,12.5,1,0,0,0,1'') ''EVENT,''
   \<and> update_serial_turn ''EVENT,12.5,1,0,0,0,1'' init_gui =
       update_table
         \<lparr>ev_duration = Finite (25 / 2), ev_fix = 1, ev_escape = 0, ev_timeup = 0,
          ev_struggle = 0, ev_reward = 1\<rparr> init_gui
   \<and> length (py_split (CHR '','') (py_strip ''EVENT,1,2'')) \<noteq> 7
   \<and> update_serial_turn ''EVENT,1,2'' init_gui = status_lines ''EVENT,1,2'' init_gui
   \<and> totals (update_serial_turn ''EVENT,1,2'' init_gui) = totals init_gui
   \<and> isl (py_int ''x'')
   \<and> update_serial_turn ''EVENT,12.5,1,0,0,0,x'' init_gui = init_gui"
proof -
  have two: "py_strip ''EVENT,1,2'' = ''EVENT,1,2''" "startswith ''EVENT,1,2'' ''EVENT,''"
    "py_split (CHR '','') ''EVENT,1,2'' = [''EVENT'', ''1'', ''2'']"
    by code_simp+
  have bad: "py_strip ''EVENT,12.5,1,0,0,0,x'' = ''EVENT,12.5,1,0,0,0,x''"
    "startswith ''EVENT,12.5,1,0,0,0,x'' ''EVENT,''"
    "py_split (CHR '','') ''EVENT,12.5,1,0,0,0,x''
       = [''EVENT'', ''12.5'', ''1'', ''0'', ''0'', ''0'', ''x'']"
    "isl (py_int ''x'')"
    by code_simp+
  from event_line_decoding [where raw = "''EVENT,12.5,1,0,0,0,1''" and s = init_gui
      and d = "Finite (25 / 2)" and a = 1 and b = 0 and c = 0 and e = 0 and f = 1]
  have 1: "update_serial_turn ''EVENT,12.5,1,0,0,0,1'' init_gui =
       update_table
         \<lparr>ev_duration = Finite (25 / 2), ev_fix = 1, ev_escape = 0, ev_timeup = 0,
          ev_struggle = 0, ev_reward = 1\<rparr> init_gui"
    by (simp add: event_line_facts)
  from event_line_decoding [where raw = "''EVENT,1,2''" and s = init_gui]
  have 2: "update_serial_turn ''EVENT,1,2'' init_gui = status_lines ''EVENT,1,2'' init_gui"
    "totals (update_serial_turn ''EVENT,1,2'' init_gui) = totals init_gui"
    by (simp_all add: two)
  from event_line_decoding [where raw = "''EVENT,12.5,1,0,0,0,x''" and s = init_gui]
  have 3: "update_serial_turn ''EVENT,12.5,1,0,0,0,x'' init_gui = init_gui"
    by (simp add: bad)
  from 1 2 3 show ?thesis
    by (simp add: event_line_facts two bad)
qed

text \<open>
  The claim C5 as stated fails for a line of the wrong number of fields: the line
  "EVENT,Fixation Engaged" has two fields, and it is not set aside, it turns the
  fixation label to ACTIVE and adds a line to the log.
\<close>

theorem wrong_arity_line_sets_fixation:
  "startswith (py_strip ''EVENT,Fixation Engaged'') ''EVENT,''
   \<and> length (py_split (CHR '','') (py_strip ''EVENT,Fixation Engaged'')) = 2
   \<and> fixation_label init_gui = (''Fixation: INACTIVE'', ''red'')
   \<and> fixation_label (update_serial_turn ''EVENT,Fixation Engaged'' init_gui)
       = (''Fixation: ACTIVE'', ''green'')
   \<and> console_box (update_serial_turn ''EVENT,Fixation Engaged'' init_gui)
       = [''Fixation Engaged'']"
  by code_simp

text \<open>
  The line "Fixation Engaged and Struggle YES" sets the fixation label to ACTIVE and the
  struggle label to YES.
\<close>

theorem status_groups_independent_witness:
  "py_strip ''Fixation Engaged and Struggle YES'' \<noteq> []
   \<and> \<not> startswith (py_strip ''Fixation Engaged and Struggle YES'') ''EVENT,''
   \<and> fixation_label (update_serial_turn ''Fixation Engaged and Struggle YES'' init_gui)
       = (''Fixation: ACTIVE'', ''green'')
   \<and> struggle_label (update_serial_turn ''Fixation Engaged and Struggle YES'' init_gui)
       = (''Struggle: YES'', ''red'')"
proof -
  have f: "py_strip ''Fixation Engaged and Struggle YES'' = ''Fixation Engaged and Struggle YES''"
    "\<not> startswith ''Fixation Engaged and Struggle YES'' ''EVENT,''"
    "py_in ''Fixation Engaged'' ''Fixation Engaged and Struggle YES''"
    "py_in ''Struggle YES'' ''Fixation Engaged and Struggle YES''"
    by code_simp+
  from status_groups_independent [where raw = "''Fixation Engaged and Struggle YES''"
      and s = init_gui] f
  show ?thesis
    by simp
qed

text \<open>
  The claim C6 as stated fails for a line of seven fields with a conversion that
  raises: the line "EVENT,Fixation Engaged,Struggle YES,0,0,0,0" contains a phrase of
  each group, and neither label changes and nothing is logged.
\<close>

theorem malformed_event_line_drops_status:
  "py_in ''Fixation Engaged'' (py_strip ''EVENT,Fixation Engaged,Struggle YES,0,0,0,0'')
   \<and> py_in ''Struggle YES'' (py_strip ''EVENT,Fixation Engaged,Struggle YES,0,0,0,0'')
   \<and> fixation_label (update_serial_turn ''EVENT,Fixation Engaged,Struggle YES,0,0,0,0'' init_gui)
       = (''Fixation: INACTIVE'', ''red'')
   \<and> struggle_label (update_serial_turn ''EVENT,Fixation Engaged,Struggle YES,0,0,0,0'' init_gui)
       = (''Struggle: NO'', ''gray'')
   \<and> console_box (update_serial_turn ''EVENT,Fixation Engaged,Struggle YES,0,0,0,0'' init_gui)
       = []"
  by code_simp

text \<open>
  The line "EVENT,Reward Given" logs the reward; the line "EVENT,12.5,1,0,0,0,1" is
  applied as a trial and then searched; the line "EVENT,1,2,3,4,5,x" changes nothing.
\<close>

theorem status_matching_after_event_parsing_witness:
  "py_strip ''EVENT,Reward Given'' \<noteq> []
   \<and> startswith (py_strip ''EVENT,Reward Given'') ''EVENT,''
   \<and> length (py_split (CHR '','') (py_strip ''EVENT,Reward Given'')) \<noteq> 7
   \<and> py_in ''Reward Given'' (py_strip ''EVENT,Reward Given'')
   \<and> console_box (update_serial_turn ''EVENT,Reward Given'' init_gui) = [''Reward Given'']
   \<and> parse_event (py_split (CHR '','') (py_strip ''EVENT,12.5,1,0,0,0,1'')) =
       Inr \<lparr>ev_duration = Finite (25 / 2), ev_fix = 1, ev_escape = 0, ev_timeup = 0,
            ev_struggle = 0, ev_reward = 1\<rparr>
   \<and> update_serial_turn ''EVENT,12.5,1,0,0,0,1'' init_gui =
       status_lines ''EVENT,12.5,1,0,0,0,1''
         (update_table
           \<lparr>ev_duration = Finite (25 / 2), ev_fix = 1, ev_escape = 0, ev_timeup = 0,
            ev_struggle = 0, ev_reward = 1\<rparr> init_gui)
   \<and> isl (parse_event (py_split (CHR '','') (py_strip ''EVENT,1,2,3,4,5,x'')))
   \<and> update_serial_turn ''EVENT,1,2,3,4,5,x'' init_gui = init_gui"
proof -
  have r: "py_strip ''EVENT,Reward Given'' = ''EVENT,Reward Given''"
    "startswith ''EVENT,Reward Given'' ''EVENT,''"
    "length (py_split (CHR '','') ''EVENT,Reward Given'') = 2"
    "py_in ''Reward Given'' ''EVENT,Reward Given''"
    "console_box (struggle_lines ''EVENT,Reward Given''
       (fixation_lines ''EVENT,Reward Given'' init_gui)) = []"
    by code_simp+
  have v: "parse_event [''EVENT'', ''12.5'', ''1'', ''0'', ''0'', ''0'', ''1''] =
       Inr \<lparr>ev_duration = Finite (25 / 2), ev_fix = 1, ev_escape = 0, ev_timeup = 0,
            ev_struggle = 0, ev_reward = 1\<rparr>"
    by code_simp+
  have b: "py_strip ''EVENT,1,2,3,4,5,x'' = ''EVENT,1,2,3,4,5,x''"
    "startswith ''EVENT,1,2,3,4,5,x'' ''EVENT,''"
    "length (py_split (CHR '','') ''EVENT,1,2,3,4,5,x'') = 7"
    "isl (parse_event (py_split (CHR '','') ''EVENT,1,2,3,4,5,x''))"
    "isl (parse_event [''EVENT'', ''1'', ''2'', ''3'', ''4'', ''5'', ''x''])"
    by code_simp+
  from status_matching_after_event_parsing [where raw = "''EVENT,Reward Given''"
      and s = init_gui]
  have "update_serial_turn ''EVENT,Reward Given'' init_gui
        = status_lines ''EVENT,Reward Given'' init_gui
      \<and> console_box (update_serial_turn ''EVENT,Reward Given'' init_gui) = [''Reward Given'']"
    by (auto simp add: r Let_def)
  then have 1: "console_box (update_serial_turn ''EVENT,Reward Given'' init_gui)
      = [''Reward Given'']"
    by (rule conjunct2)
  from status_matching_after_event_parsing [where raw = "''EVENT,12.5,1,0,0,0,1''"
      and s = init_gui
      and ev = "\<lparr>ev_duration = Finite (25 / 2), ev_fix = 1, ev_escape = 0, ev_timeup = 0,
            ev_struggle = 0, ev_reward = 1\<rparr>"]
  have 2: "update_serial_turn ''EVENT,12.5,1,0,0,0,1'' init_gui =
       status_lines ''EVENT,12.5,1,0,0,0,1''
         (update_table
           \<lparr>ev_duration = Finite (25 / 2), ev_fix = 1, ev_escape = 0, ev_timeup = 0,
            ev_struggle = 0, ev_reward = 1\<rparr> init_gui)"
    by (simp add: event_line_facts v Let_def)
  from status_matching_after_event_parsing [where raw = "''EVENT,1,2,3,4,5,x''"
      and s = init_gui]
  have 3: "update_serial_turn ''EVENT,1,2,3,4,5,x'' init_gui = init_gui"
    by (simp add: b Let_def)
  from 1 2 3 show ?thesis
    by (simp add: r v b event_line_facts)
qed

text \<open>
  The claim C10 as stated fails when a conversion raises: the line
  "EVENT,1,2,3,4,5,Reward Given" starts with "EVENT," and contains "Reward Given", and
  neither a trial nor the phrase is applied.
\<close>

theorem malformed_event_line_drops_reward:
  "startswith (py_strip ''EVENT,1,2,3,4,5,Reward Given'') ''EVENT,''
   \<and> py_in ''Reward Given'' (py_strip ''EVENT,1,2,3,4,5,Reward Given'')
   \<and> console_box (update_serial_turn ''EVENT,1,2,3,4,5,Reward Given'' init_gui) = []
   \<and> totals (update_serial_turn ''EVENT,1,2,3,4,5,Reward Given'' init_gui) = totals init_gui"
  by code_simp

end
